theory Spec2Isabelle
  imports Complex_Main "HOL-Library.Sublist"
begin

section \<open>Microglia quantification: the script \<^verbatim>\<open>analyze_glia.py\<close>\<close>

text \<open>
  The script drives an image-analysis host (ImageJ with its plugins, the SNT skeleton
  library, the file system and the operator at the screen). The embedding keeps the
  script's own control flow, arithmetic and table handling, and takes every answer the
  host gives (what a file opens to, which regions a plugin finds, what a measurement
  returns, what the operator edits) from a record of host functions. Python floats are
  read as real numbers. A raised exception is a value of \<open>error\<close>; the statements
  before it have still happened.
\<close>

subsection \<open>Configuration constants (lines 63 to 70)\<close>

definition DEBUG :: bool where
  "DEBUG = False"

definition CONNECT_MICROGLIA :: real where
  "CONNECT_MICROGLIA = 8 / 10"

definition NUCLEUS_INTERSECTION_WITH_CELL :: real where
  "NUCLEUS_INTERSECTION_WITH_CELL = 15"

definition MICROGLIA_MIN_SIZE :: real where
  "MICROGLIA_MIN_SIZE = 20"

definition MICROGLIA_MIN_SIZE_3D :: nat where
  "MICROGLIA_MIN_SIZE_3D = 10"

definition MICROGLIA_MAX_SIZE :: real where
  "MICROGLIA_MAX_SIZE = 500"

definition MEMBRANE_MODEL_FILE :: string where
  "MEMBRANE_MODEL_FILE = ''~'' @ [CHR 0x5C] @ ''microglia'' @ [CHR 0x5C] @ ''membrane.ilp''"

subsection \<open>Exceptions\<close>

datatype assert_arg = NoArg | PathArg string | RealArg real

datatype error =
    AssertionError assert_arg
  | ZeroDivisionError
  | ValueError
  | IndexError
  | StopIteration
  | SystemExit

definition bind_e :: "error + 'a \<Rightarrow> ('a \<Rightarrow> error + 'b) \<Rightarrow> error + 'b" where
  "bind_e m f = (case m of Inl e \<Rightarrow> Inl e | Inr x \<Rightarrow> f x)"

text \<open>Float division and \<open>math.sqrt\<close>, with the exceptions Python raises.\<close>

definition py_div :: "real \<Rightarrow> real \<Rightarrow> error + real" where
  "py_div a b = (if b = 0 then Inl ZeroDivisionError else Inr (a / b))"

definition py_sqrt :: "real \<Rightarrow> error + real" where
  "py_sqrt x = (if x < 0 then Inl ValueError else Inr (sqrt x))"

subsection \<open>Skeleton trees and cable length (lines 73 to 99)\<close>

text \<open>
  A tree of the skeleton converter: \<open>tlist\<close> is what the tree's \<open>list()\<close> returns (the
  elements the script counts to rank trees), \<open>edge_lengths\<close> the calibrated lengths of the
  tree's edges. The analyzer's metric "Cable length" is their sum.
\<close>

record tree =
  tlist :: "nat list"
  edge_lengths :: "real list"

definition cable_metric :: "tree \<Rightarrow> real" where
  "cable_metric t = sum_list (edge_lengths t)"

text \<open>\<open>getRawStatistics().max\<close> of the cropped 8-bit mask, given as its pixel values.\<close>

definition raw_max :: "nat list \<Rightarrow> nat" where
  "raw_max px = fold max px 0"

text \<open>
  \<open>get_cable_length(roi, ip, imp)\<close>: \<open>cropped\<close> are the pixels of \<open>ip.crop()\<close> under the
  region, \<open>trees\<close> is \<open>skelConv.getTrees()\<close> for that crop. \<open>trees[0]\<close> raises IndexError on
  an empty list; \<open>next\<close> on an exhausted generator raises StopIteration.
\<close>

definition get_cable_length :: "nat list \<Rightarrow> tree list \<Rightarrow> error + real" where
  "get_cable_length cropped trees =
     (if raw_max cropped > 0 then
        (case trees of
           [] \<Rightarrow> Inl IndexError
         | t0 # rest \<Rightarrow>
             bind_e
               (if length trees > 1 then
                  (let max_tree_len = fold max (map (\<lambda>x. length (tlist x)) rest) (length (tlist t0))
                   in case List.find (\<lambda>x. max_tree_len = length (tlist x)) trees of
                        None \<Rightarrow> Inl StopIteration
                      | Some x \<Rightarrow> Inr x)
                else Inr t0)
               (\<lambda>tree. Inr (cable_metric tree)))
      else Inr 0)"

subsection \<open>Measurement rows (lines 254 to 273)\<close>

text \<open>
  A row of the results table after the manager's Measure command, with the measurements
  the script selects (area, area fraction, perimeter, display label) and the two columns
  it adds.
\<close>

record mrow =
  row_label :: string
  Area :: real
  PctArea :: real
  Perim :: real
  RI :: "real option"
  Cable_Length :: "real option"

text \<open>Line 264: \<open>ri = perimeter / area / (2 * sqrt((PI / area)))\<close>.\<close>

definition ri_of :: "real \<Rightarrow> real \<Rightarrow> error + real" where
  "ri_of perimeter area =
     bind_e (py_div perimeter area) (\<lambda>q.
     bind_e (py_div pi area) (\<lambda>x.
     bind_e (py_sqrt x) (\<lambda>s.
     py_div q (2 * s))))"

text \<open>
  The body of the loop over the rows (lines 262 to 271) for row number \<open>row\<close>: \<open>n_rows\<close> is
  \<open>results.size()\<close>, \<open>rois\<close> the manager's list, \<open>crop_of\<close> and \<open>trees_of\<close> the host's crop
  and skeleton of a region.
\<close>

definition measure_row ::
  "('roi \<Rightarrow> nat list) \<Rightarrow> ('roi \<Rightarrow> tree list) \<Rightarrow> nat \<Rightarrow> 'roi list \<Rightarrow> nat \<Rightarrow> mrow \<Rightarrow> error + mrow" where
  "measure_row crop_of trees_of n_rows rois row r =
     bind_e (ri_of (Perim r) (Area r)) (\<lambda>ri.
       if \<not> ri \<ge> 1 then Inl (AssertionError (RealArg ri))
       else if \<not> n_rows = length rois then Inl (AssertionError NoArg)
       else
         (let roi = rois ! row
          in bind_e (get_cable_length (crop_of roi) (trees_of roi)) (\<lambda>cable_length.
               Inr (r\<lparr>RI := Some ri, Cable_Length := Some cable_length\<rparr>))))"

fun measure_loop ::
  "('roi \<Rightarrow> nat list) \<Rightarrow> ('roi \<Rightarrow> tree list) \<Rightarrow> nat \<Rightarrow> 'roi list \<Rightarrow> nat \<Rightarrow> mrow list \<Rightarrow> error + mrow list" where
  "measure_loop crop_of trees_of n_rows rois row [] = Inr []"
| "measure_loop crop_of trees_of n_rows rois row (r # rs) =
     bind_e (measure_row crop_of trees_of n_rows rois row r) (\<lambda>r'.
     bind_e (measure_loop crop_of trees_of n_rows rois (Suc row) rs) (\<lambda>rs'.
     Inr (r' # rs')))"

definition measure_rows ::
  "('roi \<Rightarrow> nat list) \<Rightarrow> ('roi \<Rightarrow> tree list) \<Rightarrow> 'roi list \<Rightarrow> mrow list \<Rightarrow> error + mrow list" where
  "measure_rows crop_of trees_of rois results =
     measure_loop crop_of trees_of (length results) rois 0 results"

subsection \<open>The host\<close>

text \<open>
  What the script asks of its surroundings. A path argument is the image file being
  processed. \<open>image_count\<close> is \<open>WindowManager.getImageCount()\<close> after the importer ran on
  the file; \<open>particles\<close> the manager's list after the segmentation commands of lines 147 to
  209 (ending with Analyze Particles, which adds the regions it finds);
  \<open>nuclei_stats\<close> is \<open>getAllStatistics()\<close> of the nuclei mask under a region;
  \<open>rm_delete\<close> the manager's Delete command after \<open>setSelectedIndexes\<close>;
  \<open>wait_for_user\<close> the manager's list when the operator closes the dialog; \<open>rm_measure\<close>
  the results table after the manager's Measure command; \<open>crop_pixels\<close> and
  \<open>skeleton_trees\<close> the crop of the final mask under a region and the trees of its
  skeleton.
\<close>

record roi_stats =
  stat_area :: real
  stat_areaFraction :: real

record 'roi host =
  os_sep :: char
  getDirectory :: string
  listdir :: "string \<Rightarrow> string list"
  expanduser :: "string \<Rightarrow> string"
  path_exists :: "string \<Rightarrow> bool"
  image_count :: "string \<Rightarrow> nat"
  particles :: "string \<Rightarrow> 'roi list"
  nuclei_stats :: "string \<Rightarrow> 'roi \<Rightarrow> roi_stats"
  rm_delete :: "nat list \<Rightarrow> 'roi list \<Rightarrow> 'roi list"
  wait_for_user :: "string \<Rightarrow> 'roi list \<Rightarrow> 'roi list"
  rm_measure :: "string \<Rightarrow> 'roi list \<Rightarrow> mrow list"
  crop_pixels :: "string \<Rightarrow> 'roi \<Rightarrow> nat list"
  skeleton_trees :: "string \<Rightarrow> 'roi \<Rightarrow> tree list"

text \<open>
  A table as \<open>IJ.open\<close> reads it from a CSV file: its headings, and per row the label and
  the value under each heading.
\<close>

record csv_table =
  headings :: "string list"
  trows :: "(string \<times> (string \<Rightarrow> real)) list"

text \<open>
  The observable steps of a run, in order, and the per-image CSV files of the analysis
  folder. The \<open>print\<close> statements and the display commands are left out.
\<close>

datatype event =
    BioFormatsImporter string
  | ShowMessage string
  | ExistsCheck string
  | PixelClassification string string
  | OpenFile string
  | WaitForUserDialog
  | SaveAsResults string
  | Summarize
  | ReadAndWriteExcel string
  | SaveImage string

record world =
  events :: "event list"
  csv_files :: "string \<Rightarrow> csv_table option"

definition emit :: "event \<Rightarrow> world \<Rightarrow> world" where
  "emit e w = w\<lparr>events := events w @ [e]\<rparr>"

text \<open>
  \<open>os.path.join\<close> of a directory and a relative name (a name of a listing, or one built
  from it): the separator is put between them unless the directory is empty or already
  ends in one; where the separator is the backslash, a final slash counts as one too.
\<close>

definition path_join :: "char \<Rightarrow> string \<Rightarrow> string \<Rightarrow> string" where
  "path_join sep a b =
     (if a = [] \<or> last a = sep \<or> (sep = CHR 0x5C \<and> last a = CHR ''/'')
      then a @ b else a @ sep # b)"

definition endswith :: "string \<Rightarrow> string \<Rightarrow> bool" where
  "endswith s suf = (length suf \<le> length s \<and> drop (length s - length suf) s = suf)"

text \<open>The extension test of lines 134 and 310.\<close>

definition is_image_name :: "string \<Rightarrow> bool" where
  "is_image_name file_name = (endswith file_name ''.nd2'' \<or> endswith file_name ''.tif'')"

definition csv_file_of :: "char \<Rightarrow> string \<Rightarrow> string \<Rightarrow> string" where
  "csv_file_of sep analysis_dir file_name = path_join sep analysis_dir (file_name @ ''.csv'')"

subsection \<open>The nucleus filter (lines 211 to 233)\<close>

definition sum_nuclei_gray :: "roi_stats \<Rightarrow> real" where
  "sum_nuclei_gray stats = stat_area stats * stat_areaFraction stats / 100"

text \<open>The loop of lines 218 to 229 over the indexes still to visit, appending to the list.\<close>

fun scan_rois :: "('roi \<Rightarrow> roi_stats) \<Rightarrow> 'roi list \<Rightarrow> nat list \<Rightarrow> nat list \<Rightarrow> nat list" where
  "scan_rois stats_of rois [] to_be_deleted = to_be_deleted"
| "scan_rois stats_of rois (i # rest) to_be_deleted =
     scan_rois stats_of rois rest
       (if sum_nuclei_gray (stats_of (rois ! i)) < NUCLEUS_INTERSECTION_WITH_CELL
        then to_be_deleted @ [i] else to_be_deleted)"

definition nucleus_filter :: "'roi host \<Rightarrow> string \<Rightarrow> 'roi list \<Rightarrow> 'roi list" where
  "nucleus_filter h file_path rois =
     (if length rois > 0 then
        rm_delete h (scan_rois (nuclei_stats h file_path) rois [0..<length rois] []) rois
      else rois)"

text \<open>
  A manager whose Delete removes the entries at the selected indexes and keeps the others
  in their order.
\<close>

definition delete_selected :: "nat list \<Rightarrow> 'roi list \<Rightarrow> 'roi list" where
  "delete_selected selected rois =
     map snd (filter (\<lambda>p. fst p \<notin> set selected) (zip [0..<length rois] rois))"

subsection \<open>One image (lines 132 to 303)\<close>

text \<open>
  The results table as line 278 saves it: one line per row, with the row's label and its
  columns, the column \<open>%Area\<close> deleted at line 273. Which columns Measure fills is
  the host's setting; the table keeps those the script reads or writes.
\<close>

definition results_to_csv :: "mrow list \<Rightarrow> csv_table" where
  "results_to_csv rows =
     \<lparr>headings = [''Label'', ''Area'', ''Perim.'', ''RI'', ''Cable_Length''],
      trows = map (\<lambda>r. (row_label r,
                (\<lambda>h. if h = ''Area'' then Area r
                      else if h = ''Perim.'' then Perim r
                      else if h = ''RI'' then (case RI r of Some v \<Rightarrow> v | None \<Rightarrow> 0)
                      else if h = ''Cable_Length'' then (case Cable_Length r of Some v \<Rightarrow> v | None \<Rightarrow> 0)
                      else 0))) rows\<rparr>"

text \<open>Lines 171 to 186: the model check and the classification.\<close>

definition classify :: "'roi host \<Rightarrow> string \<Rightarrow> string \<Rightarrow> string \<Rightarrow> world \<Rightarrow> world \<times> error option" where
  "classify h analysis_dir file_name file_path w =
     (let membrane_model_file = expanduser h MEMBRANE_MODEL_FILE;
          w1 = emit (ExistsCheck membrane_model_file) w
      in if \<not> path_exists h membrane_model_file
         then (w1, Some (AssertionError (PathArg membrane_model_file)))
         else if \<not> DEBUG
         then (emit (PixelClassification membrane_model_file file_path) w1, None)
         else
           (let segmented_file = path_join (os_sep h) analysis_dir (file_name @ ''_seg.tif'')
            in if path_exists h segmented_file
               then (emit (OpenFile segmented_file) w1, None)
               else (emit (SaveImage segmented_file)
                       (emit (PixelClassification membrane_model_file file_path) w1), None)))"

text \<open>Lines 251 to 284: measuring the regions and saving the table.\<close>

definition measure_and_save ::
  "'roi host \<Rightarrow> string \<Rightarrow> string \<Rightarrow> string \<Rightarrow> 'roi list \<Rightarrow> world \<Rightarrow> world \<times> error option" where
  "measure_and_save h analysis_dir file_name file_path rois w =
     (if length rois > 0 then
        (case measure_rows (crop_pixels h file_path) (skeleton_trees h file_path) rois
                (rm_measure h file_path rois) of
           Inl e \<Rightarrow> (w, Some e)
         | Inr results \<Rightarrow>
             (let csv_file = csv_file_of (os_sep h) analysis_dir file_name;
                  w1 = emit (SaveAsResults csv_file)
                         (w\<lparr>csv_files := (csv_files w)(csv_file \<mapsto> results_to_csv results)\<rparr>);
                  excel_file = path_join (os_sep h) analysis_dir (file_name @ ''.xlsx'')
              in (emit (ReadAndWriteExcel excel_file) (emit Summarize w1), None)))
      else (w, None))"

text \<open>
  The manager's list when the measurement starts: the regions of the segmentation, after
  the nucleus filter and after the operator's edits (lines 211 to 237).
\<close>

definition surviving_rois :: "'roi host \<Rightarrow> string \<Rightarrow> 'roi list" where
  "surviving_rois h file_path =
     wait_for_user h file_path (nucleus_filter h file_path (particles h file_path))"

definition process_image ::
  "'roi host \<Rightarrow> string \<Rightarrow> string \<Rightarrow> string \<Rightarrow> world \<Rightarrow> world \<times> error option" where
  "process_image h input_dir analysis_dir file_name w =
     (let file_path = path_join (os_sep h) input_dir file_name;
          w1 = emit (BioFormatsImporter file_path) w
      in if image_count h file_path = 0
         then (emit (ShowMessage (''Could not open image '' @ file_path)) w1, Some SystemExit)
         else
           (case classify h analysis_dir file_name file_path w1 of
              (w2, Some e) \<Rightarrow> (w2, Some e)
            | (w2, None) \<Rightarrow>
                (let rois = surviving_rois h file_path;
                     w3 = emit WaitForUserDialog w2
                 in case measure_and_save h analysis_dir file_name file_path rois w3 of
                      (w4, Some e) \<Rightarrow> (w4, Some e)
                    | (w4, None) \<Rightarrow>
                        (emit (SaveImage (analysis_dir @ ''/'' @ file_name @ ''_masks.png''))
                           (emit (SaveImage (analysis_dir @ ''/'' @ file_name @ ''.tif'')) w4),
                         None))))"

text \<open>The loop over the listing (lines 131 to 304): \<open>exit()\<close> and a failed assertion end it.\<close>

fun image_loop ::
  "'roi host \<Rightarrow> string \<Rightarrow> string \<Rightarrow> string list \<Rightarrow> world \<Rightarrow> world \<times> error option" where
  "image_loop h input_dir analysis_dir [] w = (w, None)"
| "image_loop h input_dir analysis_dir (file_name # rest) w =
     (if \<not> is_image_name file_name then image_loop h input_dir analysis_dir rest w
      else
        (case process_image h input_dir analysis_dir file_name w of
           (w', Some e) \<Rightarrow> (w', Some e)
         | (w', None) \<Rightarrow> image_loop h input_dir analysis_dir rest w'))"

subsection \<open>The folder summary (lines 306 to 329)\<close>

text \<open>
  A row of the folder table: the label given to \<open>addLabel\<close> and the values given to
  \<open>addValue\<close>, one for each heading but the first.
\<close>

type_synonym summary_row = "string \<times> (string \<times> real) list"

definition copy_rows :: "csv_table \<Rightarrow> summary_row list" where
  "copy_rows csv = map (\<lambda>row. (fst row, map (\<lambda>col. (col, snd row col)) (drop 1 (headings csv)))) (trows csv)"

fun summary_loop ::
  "'roi host \<Rightarrow> string \<Rightarrow> string list \<Rightarrow> world \<Rightarrow> summary_row list \<Rightarrow> world \<times> summary_row list" where
  "summary_loop h analysis_dir [] w results = (w, results)"
| "summary_loop h analysis_dir (file_name # rest) w results =
     (if \<not> is_image_name file_name then summary_loop h analysis_dir rest w results
      else
        (let csv_file = csv_file_of (os_sep h) analysis_dir file_name
         in case csv_files w csv_file of
              None \<Rightarrow> summary_loop h analysis_dir rest w results
            | Some csv \<Rightarrow>
                summary_loop h analysis_dir rest (emit (OpenFile csv_file) w)
                  (results @ copy_rows csv)))"

subsection \<open>The run (lines 111 to 345)\<close>

text \<open>
  The result of a run: the world it leaves, the folder table handed to the final
  Summarize command (none when the run ended in an exception) and the exception.
\<close>

definition main :: "'roi host \<Rightarrow> world \<Rightarrow> world \<times> summary_row list option \<times> error option" where
  "main h w =
     (let input_dir = getDirectory h;
          file_list = listdir h input_dir;
          analysis_dir = path_join (os_sep h) input_dir ''analysis_v9''
      in case image_loop h input_dir analysis_dir file_list w of
           (w1, Some e) \<Rightarrow> (w1, None, Some e)
         | (w1, None) \<Rightarrow>
             (case summary_loop h analysis_dir file_list w1 [] of
                (w2, results) \<Rightarrow>
                  (emit (ShowMessage ''Finshed processing folder.'') (emit Summarize w2),
                   Some results, None)))"

subsection \<open>From the classified stack to the candidate regions (lines 186 to 208)\<close>

text \<open>
  Modelled from the spec: the commands of lines 192 to 208 are plugins of the host, called
  by name (3D Objects Counter, Z Project, Convert to Mask, Analyze Particles); the script
  fixes their order and their parameters (the 3D bounds \<open>min.=10 max.=9999999\<close>, the 2D
  band \<open>size=20-500\<close>, \<open>exclude\<close>, \<open>add\<close>). What each does is taken from section 4.3 of the
  spec: label the connected foreground of the 3D mask, drop the components below the
  voxel floor, project the labelled result along z by maximum and binarise it again,
  extract the connected 2D components, keep those whose calibrated area lies in the band
  and which do not touch the image border. Connected means: linked through neighbours,
  26 around a voxel, 8 around a pixel.
\<close>

type_synonym voxel = "nat \<times> nat \<times> nat"

type_synonym pixel = "nat \<times> nat"

definition near :: "nat \<Rightarrow> nat \<Rightarrow> bool" where
  "near a b = (a \<le> Suc b \<and> b \<le> Suc a)"

definition adj26 :: "voxel \<Rightarrow> voxel \<Rightarrow> bool" where
  "adj26 v v' = (near (fst v) (fst v') \<and> near (fst (snd v)) (fst (snd v')) \<and> near (snd (snd v)) (snd (snd v')))"

definition adj8 :: "pixel \<Rightarrow> pixel \<Rightarrow> bool" where
  "adj8 p p' = (near (fst p) (fst p') \<and> near (snd p) (snd p'))"

text \<open>
  Modelled from the spec: connected-component labelling. \<open>grow\<close> extends the points
  grown so far by every remaining point next to one of them, until none is left to add;
  \<open>components\<close> takes the first point still unlabelled as the seed of the next
  component.
\<close>

function grow :: "('a \<Rightarrow> 'a \<Rightarrow> bool) \<Rightarrow> 'a list \<Rightarrow> 'a list \<Rightarrow> 'a list \<times> 'a list" where
  "grow adj grown rest =
     (let new = filter (\<lambda>q. \<exists>p\<in>set grown. adj p q) rest
      in if new = [] then (grown, rest)
         else grow adj (grown @ new) (filter (\<lambda>q. \<not> (\<exists>p\<in>set grown. adj p q)) rest))"
  by pat_completeness auto

termination
proof (relation "measure (\<lambda>(adj, grown, rest). length rest)")
  show "wf (measure (\<lambda>(adj, grown, rest). length rest))" by (rule wf_measure)
next
  fix adj :: "'a \<Rightarrow> 'a \<Rightarrow> bool" and grown rest :: "'a list" and new
  assume new: "new = filter (\<lambda>q. \<exists>p\<in>set grown. adj p q) rest" and ne: "new \<noteq> []"
  have less: "filter P xs \<noteq> [] \<Longrightarrow> length (filter (\<lambda>q. \<not> P q) xs) < length xs"
    for P :: "'a \<Rightarrow> bool" and xs
  proof (induction xs)
    case Nil
    then show ?case by simp
  next
    case (Cons x xs)
    have le: "length (filter (\<lambda>q. \<not> P q) xs) < Suc (length xs)"
      using length_filter_le[of "\<lambda>q. \<not> P q" xs] by linarith
    show ?case
    proof (cases "P x")
      case True
      then show ?thesis using le by simp
    next
      case False
      then show ?thesis using Cons by simp
    qed
  qed
  from less[of "\<lambda>q. \<exists>p\<in>set grown. adj p q" rest] new ne
  have "length (filter (\<lambda>q. \<not> (\<exists>p\<in>set grown. adj p q)) rest) < length rest" by blast
  then show "((adj, grown @ new, filter (\<lambda>q. \<not> (\<exists>p\<in>set grown. adj p q)) rest), (adj, grown, rest))
        \<in> measure (\<lambda>(adj, grown, rest). length rest)"
    by (simp only: in_measure prod.case)
qed

declare grow.simps [simp del]

function components :: "('a \<Rightarrow> 'a \<Rightarrow> bool) \<Rightarrow> 'a list \<Rightarrow> 'a list list" where
  "components adj [] = []"
| "components adj (p # ps) = fst (grow adj [p] ps) # components adj (snd (grow adj [p] ps))"
  by pat_completeness auto

termination
proof (relation "measure (\<lambda>(adj, pts). length pts)")
  show "wf (measure (\<lambda>(adj, pts). length pts))" by (rule wf_measure)
next
  fix adj :: "'a \<Rightarrow> 'a \<Rightarrow> bool" and p :: 'a and ps :: "'a list"
  have le: "length (snd (grow adj grown rest)) \<le> length rest" for grown rest
  proof (induction adj grown rest rule: grow.induct)
    case (1 adj grown rest)
    let ?new = "filter (\<lambda>q. \<exists>p\<in>set grown. adj p q) rest"
    let ?rest' = "filter (\<lambda>q. \<not> (\<exists>p\<in>set grown. adj p q)) rest"
    show ?case
    proof (cases "?new = []")
      case True
      then have "grow adj grown rest = (grown, rest)"
        by (subst grow.simps) (simp add: Let_def)
      then show ?thesis by simp
    next
      case False
      then have eq: "grow adj grown rest = grow adj (grown @ ?new) ?rest'"
        by (subst grow.simps) (simp add: Let_def)
      from 1[OF refl False] have "length (snd (grow adj (grown @ ?new) ?rest')) \<le> length ?rest'" .
      also have "\<dots> \<le> length rest" by (rule length_filter_le)
      finally show ?thesis unfolding eq .
    qed
  qed
  from le[of "[p]" ps]
  show "((adj, snd (grow adj [p] ps)), (adj, p # ps)) \<in> measure (\<lambda>(adj, pts). length pts)"
    by (simp only: in_measure prod.case list.size)
qed

text \<open>
  Modelled from the spec: the stack as the 3D counter sees it (its foreground voxels,
  each listed once), the image size and the calibrated area of one pixel.
\<close>

record stack3d =
  st_width :: nat
  st_height :: nat
  pixel_area :: real
  st_foreground :: "voxel list"

text \<open>
  Modelled from the spec: the 3D counter keeps the components whose voxel count lies
  within its bounds.
\<close>

definition objects_counter_3d :: "nat \<Rightarrow> nat \<Rightarrow> voxel list \<Rightarrow> voxel list list" where
  "objects_counter_3d min_size max_size fg =
     filter (\<lambda>obj. min_size \<le> length obj \<and> length obj \<le> max_size) (components adj26 fg)"

text \<open>
  Modelled from the spec: the pixels under an object, and the binary mask of the
  z projection of the kept objects (threshold 1 on the label image).
\<close>

definition footprint :: "voxel list \<Rightarrow> pixel list" where
  "footprint obj = remdups (map (\<lambda>v. (fst v, fst (snd v))) obj)"

definition z_project_mask :: "voxel list list \<Rightarrow> pixel list" where
  "z_project_mask objs = footprint (concat objs)"

definition calibrated_area :: "real \<Rightarrow> pixel list \<Rightarrow> real" where
  "calibrated_area a region = real (length region) * a"

definition touches_edge :: "nat \<Rightarrow> nat \<Rightarrow> pixel list \<Rightarrow> bool" where
  "touches_edge w h region =
     (\<exists>p\<in>set region. fst p = 0 \<or> snd p = 0 \<or> Suc (fst p) = w \<or> Suc (snd p) = h)"

text \<open>
  Modelled from the spec: the particle analysis with a size band and \<open>exclude\<close>; every
  region kept is added to the manager once.
\<close>

definition analyze_particles :: "real \<Rightarrow> real \<Rightarrow> real \<Rightarrow> nat \<Rightarrow> nat \<Rightarrow> pixel list \<Rightarrow> pixel list list" where
  "analyze_particles lo hi a w h binary =
     filter (\<lambda>region. lo \<le> calibrated_area a region \<and> calibrated_area a region \<le> hi \<and>
                      \<not> touches_edge w h region)
       (components adj8 binary)"

text \<open>Lines 192 to 208 with the parameters the script passes.\<close>

definition candidate_rois :: "stack3d \<Rightarrow> pixel list list" where
  "candidate_rois s =
     analyze_particles MICROGLIA_MIN_SIZE MICROGLIA_MAX_SIZE (pixel_area s) (st_width s) (st_height s)
       (z_project_mask (objects_counter_3d MICROGLIA_MIN_SIZE_3D 9999999 (st_foreground s)))"

text \<open>
  A set of points is connected when no proper non-empty part of it is without a
  neighbour in the rest.
\<close>

definition conn :: "('a \<Rightarrow> 'a \<Rightarrow> bool) \<Rightarrow> 'a set \<Rightarrow> bool" where
  "conn adj P = (\<forall>S. S \<subseteq> P \<and> S \<noteq> {} \<and> S \<noteq> P \<longrightarrow> (\<exists>a\<in>S. \<exists>b\<in>P - S. adj a b \<or> adj b a))"

subsection \<open>Counting the steps of a run\<close>

text \<open>The model checks and the classifications among the steps of a world.\<close>

definition is_check :: "event \<Rightarrow> bool" where
  "is_check e = (case e of ExistsCheck p \<Rightarrow> True | _ \<Rightarrow> False)"

definition is_classification :: "event \<Rightarrow> bool" where
  "is_classification e = (case e of PixelClassification m p \<Rightarrow> True | _ \<Rightarrow> False)"

definition n_checks :: "world \<Rightarrow> nat" where
  "n_checks w = length (filter is_check (events w))"

definition n_classifications :: "world \<Rightarrow> nat" where
  "n_classifications w = length (filter is_classification (events w))"

subsection \<open>Example inputs\<close>

text \<open>Concrete inputs on which the theorems below are instantiated.\<close>

definition w0 :: world where
  "w0 = \<lparr>events = [], csv_files = (\<lambda>p. None)\<rparr>"

definition demo_row :: mrow where
  "demo_row = \<lparr>row_label = ''microglia_mask:0001-0005'', Area = 100, PctArea = 100,
                Perim = 40, RI = None, Cable_Length = None\<rparr>"

definition demo_trees :: "tree list" where
  "demo_trees = [\<lparr>tlist = [0, 1], edge_lengths = [1]\<rparr>,
                 \<lparr>tlist = [0, 1, 2], edge_lengths = [3 / 2, 2]\<rparr>,
                 \<lparr>tlist = [0, 1, 2], edge_lengths = [7]\<rparr>]"

definition demo_host :: "nat host" where
  "demo_host =
     \<lparr>os_sep = CHR ''/'',
      getDirectory = ''/data/'',
      listdir = (\<lambda>d. [''a.tif'', ''notes.txt'', ''b.nd2'']),
      expanduser = (\<lambda>p. ''/home/me'' @ drop 1 p),
      path_exists = (\<lambda>p. True),
      image_count = (\<lambda>p. 1),
      particles = (\<lambda>p. if p = ''/data/a.tif'' then [0, 1, 2, 3] else [0, 1, 2]),
      nuclei_stats = (\<lambda>p roi. \<lparr>stat_area = 100, stat_areaFraction = (if roi = 1 then 5 else 30)\<rparr>),
      rm_delete = delete_selected,
      wait_for_user = (\<lambda>p rois. rois),
      rm_measure = (\<lambda>p rois. map (\<lambda>roi. demo_row) rois),
      crop_pixels = (\<lambda>p roi. [0, 255, 0]),
      skeleton_trees = (\<lambda>p roi. demo_trees)\<rparr>"

definition demo_row_done :: mrow where
  "demo_row_done =
     demo_row\<lparr>RI := Some (40 / 100 / (2 * sqrt (pi / 100))), Cable_Length := Some (7 / 2)\<rparr>"

definition demo_summary_row :: summary_row where
  "demo_summary_row =
     (''microglia_mask:0001-0005'',
      [(''Area'', 100), (''Perim.'', 40), (''RI'', 40 / 100 / (2 * sqrt (pi / 100))),
       (''Cable_Length'', 7 / 2)])"

definition no_model_host :: "nat host" where
  "no_model_host = demo_host\<lparr>path_exists := (\<lambda>p. False)\<rparr>"

definition no_images_host :: "nat host" where
  "no_images_host = no_model_host\<lparr>listdir := (\<lambda>d. [''notes.txt''])\<rparr>"

definition unreadable_host :: "nat host" where
  "unreadable_host = demo_host\<lparr>image_count := (\<lambda>p. if p = ''/data/a.tif'' then 0 else 1)\<rparr>"

definition zero_area_host :: "nat host" where
  "zero_area_host =
     demo_host\<lparr>rm_measure := (\<lambda>p rois. map (\<lambda>roi. demo_row\<lparr>Area := 0, Perim := 0\<rparr>) rois)\<rparr>"

definition empty_table_host :: "nat host" where
  "empty_table_host = demo_host\<lparr>rm_measure := (\<lambda>p rois. [])\<rparr>"

definition no_rois_host :: "nat host" where
  "no_rois_host = demo_host\<lparr>particles := (\<lambda>p. [])\<rparr>"

definition stale_world :: world where
  "stale_world = w0\<lparr>csv_files := (\<lambda>p. None)(''/data/analysis_v9/a.tif.csv'' \<mapsto> results_to_csv [demo_row_done])\<rparr>"

definition demo_world :: world where
  "demo_world = fst (image_loop demo_host ''/data/'' ''/data/analysis_v9'' [''a.tif'', ''notes.txt'', ''b.nd2''] w0)"


definition column_a :: "voxel list" where
  "column_a = [(2, 2, 0), (3, 2, 0), (2, 2, 1), (3, 2, 1), (2, 2, 2), (3, 2, 2),
               (2, 2, 3), (3, 2, 3), (2, 2, 4), (3, 2, 4)]"

definition column_b :: "voxel list" where
  "column_b = [(3, 2, 6), (4, 2, 6), (3, 2, 7), (4, 2, 7), (3, 2, 8), (4, 2, 8),
               (3, 2, 9), (4, 2, 9), (3, 2, 10), (4, 2, 10)]"

definition speck :: "voxel list" where
  "speck = [(6, 6, 0), (6, 6, 1), (6, 6, 2), (6, 6, 3), (6, 6, 4)]"

definition merged_stack :: stack3d where
  "merged_stack = \<lparr>st_width = 8, st_height = 8, pixel_area = 7, st_foreground = column_a @ column_b\<rparr>"

definition single_stack :: stack3d where
  "single_stack = \<lparr>st_width = 8, st_height = 8, pixel_area = 10, st_foreground = column_a @ speck\<rparr>"

definition speck_stack :: stack3d where
  "speck_stack = \<lparr>st_width = 8, st_height = 8, pixel_area = 10, st_foreground = speck\<rparr>"

section \<open>Auxiliary facts\<close>

subsection \<open>The shape index and the loop over the rows\<close>

lemma ri_value:
  assumes "0 < area"
  shows "ri_of perimeter area = Inr (perimeter / area / (2 * sqrt (pi / area)))"
proof -
  have pos: "0 < pi / area" using assms by simp
  have nneg: "\<not> pi / area < 0" using pos by linarith
  have "0 < sqrt (pi / area)" using pos by (simp only: real_sqrt_gt_0_iff)
  then have nz: "2 * sqrt (pi / area) \<noteq> 0" by linarith
  have a: "area \<noteq> 0" using assms by simp
  show ?thesis
    unfolding ri_of_def py_div_def py_sqrt_def bind_e_def
    using nneg nz a by (simp only: if_False sum.case)
qed

lemma ri_zero_area: "ri_of perimeter 0 = Inl ZeroDivisionError"
  by (simp add: ri_of_def py_div_def bind_e_def)

lemma ri_ge_1_iff:
  assumes "0 < area" "0 \<le> perimeter"
  shows "1 \<le> perimeter / area / (2 * sqrt (pi / area)) \<longleftrightarrow> 4 * pi * area \<le> perimeter\<^sup>2"
proof -
  have s: "0 < sqrt (pi / area)" using assms by simp
  have sq: "(2 * sqrt (pi / area) * area)\<^sup>2 = 4 * pi * area"
    using assms by (simp add: power2_eq_square field_simps)
  have "1 \<le> perimeter / area / (2 * sqrt (pi / area)) \<longleftrightarrow> 2 * sqrt (pi / area) * area \<le> perimeter"
    using assms s by (simp add: field_simps)
  also have "\<dots> \<longleftrightarrow> (2 * sqrt (pi / area) * area)\<^sup>2 \<le> perimeter\<^sup>2"
    using assms s by (smt (verit) mult_nonneg_nonneg pos2 less_eq_real_def power2_le_iff_abs_le abs_of_nonneg zero_le_mult_iff)
  finally show ?thesis using sq by simp
qed


lemma measure_row_Inr:
  assumes "measure_row c t n rois i r = Inr r'"
  shows "\<exists>v cl. ri_of (Perim r) (Area r) = Inr v \<and> 1 \<le> v \<and> n = length rois
          \<and> get_cable_length (c (rois ! i)) (t (rois ! i)) = Inr cl
          \<and> r' = r\<lparr>RI := Some v, Cable_Length := Some cl\<rparr>"
  using assms by (auto simp: measure_row_def bind_e_def Let_def split: sum.splits if_splits)

lemma measure_loop_Inr:
  "measure_loop c t n rois i rs = Inr out \<Longrightarrow>
     length out = length rs \<and>
     (\<forall>k < length rs. measure_row c t n rois (i + k) (rs ! k) = Inr (out ! k))"
proof (induction rs arbitrary: i out)
  case Nil
  then show ?case by simp
next
  case (Cons r rs)
  from Cons.prems obtain r' rs' where
    r': "measure_row c t n rois i r = Inr r'" and
    rs': "measure_loop c t n rois (Suc i) rs = Inr rs'" and
    out: "out = r' # rs'"
    by (auto simp: bind_e_def split: sum.splits)
  from Cons.IH[OF rs'] have len: "length rs' = length rs"
    and each: "\<forall>k < length rs. measure_row c t n rois (Suc i + k) (rs ! k) = Inr (rs' ! k)"
    by simp_all
  show ?case
  proof (intro conjI allI impI)
    show "length out = length (r # rs)" using out len by simp
  next
    fix k assume "k < length (r # rs)"
    then show "measure_row c t n rois (i + k) ((r # rs) ! k) = Inr (out ! k)"
      using r' each out by (cases k) simp_all
  qed
qed

lemma measure_loop_Inl:
  "k < length rs \<Longrightarrow> measure_row c t n rois (i + k) (rs ! k) = Inl e \<Longrightarrow>
     \<exists>e'. measure_loop c t n rois i rs = Inl e'"
  using measure_loop_Inr[of c t n rois i rs]
  by (cases "measure_loop c t n rois i rs") auto

lemma measure_loop_first_Inl:
  "measure_row c t n rois i r = Inl e \<Longrightarrow> measure_loop c t n rois i (r # rs) = Inl e"
  by (simp add: bind_e_def)

lemma measure_rows_Inr:
  assumes "measure_rows c t rois results = Inr out"
  shows "length out = length results \<and>
         (\<forall>k<length results. 0 < Area (results ! k) \<and>
            RI (out ! k) = Some (Perim (results ! k) / Area (results ! k) / (2 * sqrt (pi / Area (results ! k)))) \<and>
            1 \<le> Perim (results ! k) / Area (results ! k) / (2 * sqrt (pi / Area (results ! k))))"
proof -
  from assms have loop: "measure_loop c t (length results) rois 0 results = Inr out"
    by (simp add: measure_rows_def)
  from measure_loop_Inr[OF loop] have len: "length out = length results"
    and each: "\<forall>k<length results. measure_row c t (length results) rois (0 + k) (results ! k) = Inr (out ! k)"
    by simp_all
  have "0 < Area (results ! k) \<and>
        RI (out ! k) = Some (Perim (results ! k) / Area (results ! k) / (2 * sqrt (pi / Area (results ! k)))) \<and>
        1 \<le> Perim (results ! k) / Area (results ! k) / (2 * sqrt (pi / Area (results ! k)))"
    if k: "k < length results" for k
  proof -
    let ?r = "results ! k"
    from each k have "measure_row c t (length results) rois (0 + k) ?r = Inr (out ! k)" by simp
    from measure_row_Inr[OF this] obtain v cl where
      v: "ri_of (Perim ?r) (Area ?r) = Inr v" "1 \<le> v"
      and o: "out ! k = ?r\<lparr>RI := Some v, Cable_Length := Some cl\<rparr>" by blast
    have pos: "0 < Area ?r"
    proof (rule ccontr)
      assume "\<not> 0 < Area ?r"
      then consider "Area ?r = 0" | "Area ?r < 0" by linarith
      then show False
      proof cases
        case 1
        then show False using v(1) ri_zero_area[of "Perim ?r"] by simp
      next
        case 2
        then have "pi / Area ?r < 0" by (simp add: divide_neg_neg divide_pos_neg)
        then have "ri_of (Perim ?r) (Area ?r) = Inl ValueError"
          using 2 by (simp add: ri_of_def py_div_def py_sqrt_def bind_e_def)
        then show False using v(1) by simp
      qed
    qed
    from ri_value[OF pos, of "Perim ?r"] v(1)
    have "v = Perim ?r / Area ?r / (2 * sqrt (pi / Area ?r))" by simp
    then show ?thesis using pos v(2) o by simp
  qed
  then show ?thesis using len by blast
qed

subsection \<open>The largest tree\<close>

lemma fold_max_Max: "fold max xs (a::nat) = Max (set (a # xs))"
  using Max.set_eq_fold[of a xs] by simp

lemma raw_max_zero_iff: "raw_max px = 0 \<longleftrightarrow> (\<forall>p\<in>set px. p = 0)"
proof -
  have "raw_max px = Max (set (0 # px))" by (simp add: raw_max_def fold_max_Max)
  moreover have "Max (set (0 # px)) = 0 \<longleftrightarrow> (\<forall>p\<in>set px. p = 0)"
  proof
    assume m: "Max (set (0 # px)) = 0"
    show "\<forall>p\<in>set px. p = 0"
    proof
      fix p assume "p \<in> set px"
      then have "p \<le> Max (set (0 # px))" by (intro Max_ge) simp_all
      with m show "p = 0" by simp
    qed
  next
    assume "\<forall>p\<in>set px. p = 0"
    then have "set (0 # px) = {0}" by auto
    then show "Max (set (0 # px)) = 0" by (simp only: Max_singleton)
  qed
  ultimately show ?thesis by simp
qed

lemma find_max_tree:
  assumes "trees = t0 # rest"
  defines "m \<equiv> fold max (map (\<lambda>x. length (tlist x)) rest) (length (tlist t0))"
  shows "\<exists>i<length trees. List.find (\<lambda>x. m = length (tlist x)) trees = Some (trees ! i)
           \<and> (\<forall>j<length trees. length (tlist (trees ! j)) \<le> length (tlist (trees ! i)))
           \<and> (\<forall>j<i. length (tlist (trees ! j)) < length (tlist (trees ! i)))"
proof -
  let ?f = "\<lambda>x. length (tlist x)"
  have m: "m = Max (?f ` set trees)"
    unfolding m_def assms(1) by (simp add: fold_max_Max)
  have fin: "finite (?f ` set trees)" "?f ` set trees \<noteq> {}" using assms(1) by simp_all
  have "m \<in> ?f ` set trees" unfolding m using fin by (rule Max_in)
  then obtain x where "x \<in> set trees" "m = ?f x" by auto
  then have "List.find (\<lambda>x. m = ?f x) trees \<noteq> None" by (auto simp: find_None_iff)
  then obtain y where y: "List.find (\<lambda>x. m = ?f x) trees = Some y" by auto
  then obtain i where i: "i < length trees" "m = ?f (trees ! i)" "y = trees ! i"
    "\<forall>j<i. \<not> m = ?f (trees ! j)"
    by (auto simp: find_Some_iff)
  have le: "\<forall>j<length trees. ?f (trees ! j) \<le> m"
    unfolding m using fin by (auto intro!: Max_ge)
  have "\<forall>j<i. ?f (trees ! j) < ?f (trees ! i)"
  proof (intro allI impI)
    fix j assume "j < i"
    then have "?f (trees ! j) \<le> m" "m \<noteq> ?f (trees ! j)" using le i by auto
    then show "?f (trees ! j) < ?f (trees ! i)" using i(2) by simp
  qed
  then show ?thesis using i y le by auto
qed

lemma cable_length_largest:
  assumes "1 < length trees" "0 < raw_max cropped"
  shows "\<exists>i<length trees. get_cable_length cropped trees = Inr (cable_metric (trees ! i))
           \<and> (\<forall>j<length trees. length (tlist (trees ! j)) \<le> length (tlist (trees ! i)))
           \<and> (\<forall>j<i. length (tlist (trees ! j)) < length (tlist (trees ! i)))"
proof -
  from assms(1) obtain t0 rest where tr: "trees = t0 # rest" by (cases trees) auto
  from find_max_tree[OF tr] obtain i where i: "i < length trees"
    "List.find (\<lambda>x. fold max (map (\<lambda>x. length (tlist x)) rest) (length (tlist t0)) = length (tlist x)) trees = Some (trees ! i)"
    "\<forall>j<length trees. length (tlist (trees ! j)) \<le> length (tlist (trees ! i))"
    "\<forall>j<i. length (tlist (trees ! j)) < length (tlist (trees ! i))"
    by blast
  have "get_cable_length cropped trees = Inr (cable_metric (trees ! i))"
    using assms i(2) unfolding get_cable_length_def tr
    by (simp add: bind_e_def Let_def)
  then show ?thesis using i by blast
qed

lemma cable_length_background:
  "\<forall>p\<in>set cropped. p = 0 \<Longrightarrow> get_cable_length cropped trees = Inr 0"
  using raw_max_zero_iff[of cropped] by (simp add: get_cable_length_def)

lemma raw_max_pos_iff: "0 < raw_max px \<longleftrightarrow> (\<exists>p\<in>set px. 0 < p)"
  using raw_max_zero_iff[of px] by auto

subsection \<open>One image\<close>

lemma events_emit: "events (emit e w) = events w @ [e]"
  by (simp add: emit_def)

lemma csv_files_emit: "csv_files (emit e w) = csv_files w"
  by (simp add: emit_def)

lemma classify_missing:
  "\<not> path_exists h (expanduser h MEMBRANE_MODEL_FILE) \<Longrightarrow>
     classify h ad f fp w =
       (emit (ExistsCheck (expanduser h MEMBRANE_MODEL_FILE)) w,
        Some (AssertionError (PathArg (expanduser h MEMBRANE_MODEL_FILE))))"
  by (simp add: classify_def Let_def)

lemma classify_present:
  "path_exists h (expanduser h MEMBRANE_MODEL_FILE) \<Longrightarrow>
     classify h ad f fp w =
       (emit (PixelClassification (expanduser h MEMBRANE_MODEL_FILE) fp)
          (emit (ExistsCheck (expanduser h MEMBRANE_MODEL_FILE)) w), None)"
  by (simp add: classify_def Let_def DEBUG_def)

lemma measure_and_save_empty: "measure_and_save h ad f fp [] w = (w, None)"
  by (simp add: measure_and_save_def)

lemma measure_and_save_Inl:
  "rois \<noteq> [] \<Longrightarrow>
   measure_rows (crop_pixels h fp) (skeleton_trees h fp) rois (rm_measure h fp rois) = Inl e \<Longrightarrow>
   measure_and_save h ad f fp rois w = (w, Some e)"
  by (simp add: measure_and_save_def)

lemma measure_and_save_Inr:
  "rois \<noteq> [] \<Longrightarrow>
   measure_rows (crop_pixels h fp) (skeleton_trees h fp) rois (rm_measure h fp rois) = Inr res \<Longrightarrow>
   measure_and_save h ad f fp rois w =
     (emit (ReadAndWriteExcel (path_join (os_sep h) ad (f @ ''.xlsx'')))
        (emit Summarize
           (emit (SaveAsResults (csv_file_of (os_sep h) ad f))
              (w\<lparr>csv_files := (csv_files w)(csv_file_of (os_sep h) ad f \<mapsto> results_to_csv res)\<rparr>))),
      None)"
  by (simp add: measure_and_save_def Let_def)

lemma process_image_unopened:
  "image_count h (path_join (os_sep h) d f) = 0 \<Longrightarrow>
   process_image h d ad f w =
     (emit (ShowMessage (''Could not open image '' @ path_join (os_sep h) d f))
        (emit (BioFormatsImporter (path_join (os_sep h) d f)) w), Some SystemExit)"
  by (simp add: process_image_def Let_def)

lemma process_image_no_model:
  "image_count h (path_join (os_sep h) d f) \<noteq> 0 \<Longrightarrow>
   \<not> path_exists h (expanduser h MEMBRANE_MODEL_FILE) \<Longrightarrow>
   process_image h d ad f w =
     (emit (ExistsCheck (expanduser h MEMBRANE_MODEL_FILE))
        (emit (BioFormatsImporter (path_join (os_sep h) d f)) w),
      Some (AssertionError (PathArg (expanduser h MEMBRANE_MODEL_FILE))))"
  by (simp add: process_image_def Let_def classify_missing)

lemma process_image_no_rois:
  assumes "image_count h (path_join (os_sep h) d f) \<noteq> 0"
    and "path_exists h (expanduser h MEMBRANE_MODEL_FILE)"
    and "surviving_rois h (path_join (os_sep h) d f) = []"
  shows "process_image h d ad f w =
     (emit (SaveImage (ad @ ''/'' @ f @ ''_masks.png''))
        (emit (SaveImage (ad @ ''/'' @ f @ ''.tif''))
          (emit WaitForUserDialog
            (emit (PixelClassification (expanduser h MEMBRANE_MODEL_FILE) (path_join (os_sep h) d f))
              (emit (ExistsCheck (expanduser h MEMBRANE_MODEL_FILE))
                (emit (BioFormatsImporter (path_join (os_sep h) d f)) w))))), None)"
  using assms
  by (simp add: process_image_def Let_def classify_present measure_and_save_empty)

lemma process_image_measure_fails:
  assumes "image_count h (path_join (os_sep h) d f) \<noteq> 0"
    and "path_exists h (expanduser h MEMBRANE_MODEL_FILE)"
    and "surviving_rois h (path_join (os_sep h) d f) \<noteq> []"
    and "measure_rows (crop_pixels h (path_join (os_sep h) d f)) (skeleton_trees h (path_join (os_sep h) d f))
           (surviving_rois h (path_join (os_sep h) d f))
           (rm_measure h (path_join (os_sep h) d f) (surviving_rois h (path_join (os_sep h) d f))) = Inl e"
  shows "process_image h d ad f w =
     (emit WaitForUserDialog
        (emit (PixelClassification (expanduser h MEMBRANE_MODEL_FILE) (path_join (os_sep h) d f))
          (emit (ExistsCheck (expanduser h MEMBRANE_MODEL_FILE))
            (emit (BioFormatsImporter (path_join (os_sep h) d f)) w))), Some e)"
  using assms
  by (simp add: process_image_def Let_def classify_present measure_and_save_Inl)

lemma process_image_measured:
  assumes "image_count h (path_join (os_sep h) d f) \<noteq> 0"
    and "path_exists h (expanduser h MEMBRANE_MODEL_FILE)"
    and "surviving_rois h (path_join (os_sep h) d f) \<noteq> []"
    and "measure_rows (crop_pixels h (path_join (os_sep h) d f)) (skeleton_trees h (path_join (os_sep h) d f))
           (surviving_rois h (path_join (os_sep h) d f))
           (rm_measure h (path_join (os_sep h) d f) (surviving_rois h (path_join (os_sep h) d f))) = Inr res"
  shows "process_image h d ad f w =
     (emit (SaveImage (ad @ ''/'' @ f @ ''_masks.png''))
        (emit (SaveImage (ad @ ''/'' @ f @ ''.tif''))
          (emit (ReadAndWriteExcel (path_join (os_sep h) ad (f @ ''.xlsx'')))
            (emit Summarize
              (emit (SaveAsResults (csv_file_of (os_sep h) ad f))
                ((emit WaitForUserDialog
                  (emit (PixelClassification (expanduser h MEMBRANE_MODEL_FILE) (path_join (os_sep h) d f))
                    (emit (ExistsCheck (expanduser h MEMBRANE_MODEL_FILE))
                      (emit (BioFormatsImporter (path_join (os_sep h) d f)) w))))
                 \<lparr>csv_files := (csv_files w)(csv_file_of (os_sep h) ad f \<mapsto> results_to_csv res)\<rparr>))))),
      None)"
  using assms
  by (simp add: process_image_def Let_def classify_present measure_and_save_Inr csv_files_emit)

lemma n_checks_emit: "n_checks (emit e w) = n_checks w + (if is_check e then 1 else 0)"
  by (simp add: n_checks_def events_emit)

lemma n_checks_csv: "n_checks (w\<lparr>csv_files := c\<rparr>) = n_checks w"
  by (simp add: n_checks_def)

lemma n_classifications_emit:
  "n_classifications (emit e w) = n_classifications w + (if is_classification e then 1 else 0)"
  by (simp add: n_classifications_def events_emit)

lemma n_classifications_csv: "n_classifications (w\<lparr>csv_files := c\<rparr>) = n_classifications w"
  by (simp add: n_classifications_def)

lemma process_image_cases:
  obtains
    (unopened) "image_count h (path_join (os_sep h) d f) = 0"
  | (no_model) "image_count h (path_join (os_sep h) d f) \<noteq> 0"
      "\<not> path_exists h (expanduser h MEMBRANE_MODEL_FILE)"
  | (no_rois) "image_count h (path_join (os_sep h) d f) \<noteq> 0"
      "path_exists h (expanduser h MEMBRANE_MODEL_FILE)"
      "surviving_rois h (path_join (os_sep h) d f) = []"
  | (fails) e where "image_count h (path_join (os_sep h) d f) \<noteq> 0"
      "path_exists h (expanduser h MEMBRANE_MODEL_FILE)"
      "surviving_rois h (path_join (os_sep h) d f) \<noteq> []"
      "measure_rows (crop_pixels h (path_join (os_sep h) d f)) (skeleton_trees h (path_join (os_sep h) d f))
           (surviving_rois h (path_join (os_sep h) d f))
           (rm_measure h (path_join (os_sep h) d f) (surviving_rois h (path_join (os_sep h) d f))) = Inl e"
  | (measured) res where "image_count h (path_join (os_sep h) d f) \<noteq> 0"
      "path_exists h (expanduser h MEMBRANE_MODEL_FILE)"
      "surviving_rois h (path_join (os_sep h) d f) \<noteq> []"
      "measure_rows (crop_pixels h (path_join (os_sep h) d f)) (skeleton_trees h (path_join (os_sep h) d f))
           (surviving_rois h (path_join (os_sep h) d f))
           (rm_measure h (path_join (os_sep h) d f) (surviving_rois h (path_join (os_sep h) d f))) = Inr res"
  by (metis sum.exhaust)

lemma process_image_checks:
  "n_checks (fst (process_image h d ad f w)) =
     n_checks w + (if image_count h (path_join (os_sep h) d f) = 0 then 0 else 1)"
proof (cases h d f rule: process_image_cases)
  case unopened
  then show ?thesis by (simp add: process_image_unopened n_checks_emit is_check_def)
next
  case no_model
  then show ?thesis by (simp add: process_image_no_model n_checks_emit is_check_def)
next
  case no_rois
  then show ?thesis by (simp add: process_image_no_rois n_checks_emit is_check_def)
next
  case (fails e)
  then show ?thesis by (simp add: process_image_measure_fails n_checks_emit is_check_def)
next
  case (measured res)
  then show ?thesis
    by (simp add: process_image_measured n_checks_emit n_checks_csv is_check_def)
qed

lemma process_image_completes_classifies:
  "snd (process_image h d ad f w) = None \<Longrightarrow>
     image_count h (path_join (os_sep h) d f) \<noteq> 0 \<and> path_exists h (expanduser h MEMBRANE_MODEL_FILE)"
  by (cases h d f rule: process_image_cases)
     (simp_all add: process_image_unopened process_image_no_model)

lemma process_image_no_model_classifications:
  "\<not> path_exists h (expanduser h MEMBRANE_MODEL_FILE) \<Longrightarrow>
     n_classifications (fst (process_image h d ad f w)) = n_classifications w \<and>
     snd (process_image h d ad f w) \<noteq> None"
  by (cases h d f rule: process_image_cases)
     (simp_all add: process_image_unopened process_image_no_model n_classifications_emit is_classification_def)

subsection \<open>The loops and the run\<close>

lemma image_loop_append:
  "image_loop h d ad (xs @ ys) w =
     (case image_loop h d ad xs w of
        (w1, Some e) \<Rightarrow> (w1, Some e)
      | (w1, None) \<Rightarrow> image_loop h d ad ys w1)"
  by (induction xs arbitrary: w) (auto split: prod.splits option.splits)

lemma image_loop_checks:
  "snd (image_loop h d ad fs w) = None \<Longrightarrow>
     n_checks (fst (image_loop h d ad fs w)) = n_checks w + length (filter is_image_name fs)"
proof (induction fs arbitrary: w)
  case Nil
  then show ?case by simp
next
  case (Cons f fs)
  show ?case
  proof (cases "is_image_name f")
    case False
    then show ?thesis using Cons by simp
  next
    case True
    obtain w' r where p: "process_image h d ad f w = (w', r)" by (cases "process_image h d ad f w")
    with Cons.prems True have r: "r = None" by (cases r) simp_all
    with p have "snd (process_image h d ad f w) = None" by simp
    then have "image_count h (path_join (os_sep h) d f) \<noteq> 0"
      by (rule process_image_completes_classifies[THEN conjunct1])
    then have c: "n_checks w' = n_checks w + 1"
      using process_image_checks[of h d ad f w] p by simp
    from Cons.prems True p r have "snd (image_loop h d ad fs w') = None" by simp
    from Cons.IH[OF this] c show ?thesis using True p r by simp
  qed
qed

lemma image_loop_no_model:
  "\<not> path_exists h (expanduser h MEMBRANE_MODEL_FILE) \<Longrightarrow>
     n_classifications (fst (image_loop h d ad fs w)) = n_classifications w \<and>
     (snd (image_loop h d ad fs w) = None \<longleftrightarrow> filter is_image_name fs = [])"
proof (induction fs arbitrary: w)
  case Nil
  then show ?case by simp
next
  case (Cons f fs)
  show ?case
  proof (cases "is_image_name f")
    case False
    then show ?thesis using Cons by simp
  next
    case True
    obtain w' r where p: "process_image h d ad f w = (w', r)" by (cases "process_image h d ad f w")
    from process_image_no_model_classifications[OF Cons.prems, of d ad f w] p
    have "n_classifications w' = n_classifications w" "r \<noteq> None" by simp_all
    then show ?thesis using True p by auto
  qed
qed

lemma image_loop_unopened:
  "f \<in> set fs \<Longrightarrow> is_image_name f \<Longrightarrow> image_count h (path_join (os_sep h) d f) = 0 \<Longrightarrow>
     snd (image_loop h d ad fs w) \<noteq> None"
proof (induction fs arbitrary: w)
  case Nil
  then show ?case by simp
next
  case (Cons g fs)
  show ?case
  proof (cases "is_image_name g")
    case False
    then have "g \<noteq> f" using Cons.prems by auto
    then show ?thesis using False Cons by simp
  next
    case True
    obtain w' r where p: "process_image h d ad g w = (w', r)" by (cases "process_image h d ad g w")
    show ?thesis
    proof (cases r)
      case (Some e)
      then show ?thesis using True p by simp
    next
      case None
      then have "snd (process_image h d ad g w) = None" using p by simp
      then have "image_count h (path_join (os_sep h) d g) \<noteq> 0"
        by (rule process_image_completes_classifies[THEN conjunct1])
      then have "g \<noteq> f" using Cons.prems by auto
      then have "f \<in> set fs" using Cons.prems by simp
      from Cons.IH[OF this Cons.prems(2,3)] show ?thesis using True p None by simp
    qed
  qed
qed

lemma summary_loop_world:
  "csv_files (fst (summary_loop h ad fs w res)) = csv_files w \<and>
   n_checks (fst (summary_loop h ad fs w res)) = n_checks w \<and>
   n_classifications (fst (summary_loop h ad fs w res)) = n_classifications w"
  by (induction fs arbitrary: w res)
     (auto simp: Let_def csv_files_emit n_checks_emit n_classifications_emit
        is_check_def is_classification_def split: option.splits)

lemma main_error:
  "snd (image_loop h (getDirectory h) (path_join (os_sep h) (getDirectory h) ''analysis_v9'')
          (listdir h (getDirectory h)) w) = Some e \<Longrightarrow>
   main h w = (fst (image_loop h (getDirectory h) (path_join (os_sep h) (getDirectory h) ''analysis_v9'')
          (listdir h (getDirectory h)) w), None, Some e)"
  by (auto simp: main_def Let_def split: prod.splits option.splits)

lemma main_completes:
  "snd (image_loop h (getDirectory h) (path_join (os_sep h) (getDirectory h) ''analysis_v9'')
          (listdir h (getDirectory h)) w) = None \<Longrightarrow>
   main h w =
     (emit (ShowMessage ''Finshed processing folder.'')
        (emit Summarize
          (fst (summary_loop h (path_join (os_sep h) (getDirectory h) ''analysis_v9'')
                 (listdir h (getDirectory h))
                 (fst (image_loop h (getDirectory h) (path_join (os_sep h) (getDirectory h) ''analysis_v9'')
                    (listdir h (getDirectory h)) w)) []))),
      Some (snd (summary_loop h (path_join (os_sep h) (getDirectory h) ''analysis_v9'')
                 (listdir h (getDirectory h))
                 (fst (image_loop h (getDirectory h) (path_join (os_sep h) (getDirectory h) ''analysis_v9'')
                    (listdir h (getDirectory h)) w)) [])),
      None)"
  by (auto simp: main_def Let_def split: prod.splits option.splits)

lemma main_result_iff:
  "snd (snd (main h w)) =
     snd (image_loop h (getDirectory h) (path_join (os_sep h) (getDirectory h) ''analysis_v9'')
          (listdir h (getDirectory h)) w)"
  by (cases "snd (image_loop h (getDirectory h) (path_join (os_sep h) (getDirectory h) ''analysis_v9'')
          (listdir h (getDirectory h)) w)")
     (simp_all add: main_error main_completes)

lemma main_world_counts:
  "n_checks (fst (main h w)) =
     n_checks (fst (image_loop h (getDirectory h) (path_join (os_sep h) (getDirectory h) ''analysis_v9'')
          (listdir h (getDirectory h)) w)) \<and>
   n_classifications (fst (main h w)) =
     n_classifications (fst (image_loop h (getDirectory h) (path_join (os_sep h) (getDirectory h) ''analysis_v9'')
          (listdir h (getDirectory h)) w))"
proof (cases "snd (image_loop h (getDirectory h) (path_join (os_sep h) (getDirectory h) ''analysis_v9'')
          (listdir h (getDirectory h)) w)")
  case None
  show ?thesis unfolding main_completes[OF None]
    by (simp add: n_checks_emit n_classifications_emit is_check_def is_classification_def
        summary_loop_world)
next
  case (Some e)
  show ?thesis unfolding main_error[OF Some] by simp
qed

lemma image_loop_no_model_error:
  "\<not> path_exists h (expanduser h MEMBRANE_MODEL_FILE) \<Longrightarrow>
   snd (image_loop h d ad fs w) = Some e \<Longrightarrow>
     e = SystemExit \<or> e = AssertionError (PathArg (expanduser h MEMBRANE_MODEL_FILE))"
proof (induction fs arbitrary: w)
  case Nil
  then show ?case by simp
next
  case (Cons f fs)
  show ?case
  proof (cases "is_image_name f")
    case False
    then show ?thesis using Cons by simp
  next
    case True
    show ?thesis
    proof (cases "image_count h (path_join (os_sep h) d f) = 0")
      case z: True
      then show ?thesis using Cons.prems True by (simp add: process_image_unopened)
    next
      case False
      then show ?thesis using Cons.prems True by (simp add: process_image_no_model)
    qed
  qed
qed

lemma image_loop_all_complete:
  "(\<And>f w. snd (process_image h d ad f w) = None) \<Longrightarrow> snd (image_loop h d ad fs w) = None"
proof (induction fs arbitrary: w)
  case Nil
  then show ?case by simp
next
  case (Cons f fs)
  obtain w' r where p: "process_image h d ad f w = (w', r)" by (cases "process_image h d ad f w")
  with Cons.prems[of f w] have "r = None" by simp
  then show ?case using p Cons by simp
qed

subsection \<open>Aborted runs\<close>

lemma main_aborts_at:
  assumes "listdir h (getDirectory h) = pre @ f # post"
    and "is_image_name f"
    and "image_loop h (getDirectory h) (path_join (os_sep h) (getDirectory h) ''analysis_v9'') pre w = (w1, None)"
    and "process_image h (getDirectory h) (path_join (os_sep h) (getDirectory h) ''analysis_v9'') f w1 = (w2, Some e)"
  shows "main h w = (w2, None, Some e)"
proof -
  have "image_loop h (getDirectory h) (path_join (os_sep h) (getDirectory h) ''analysis_v9'')
          (listdir h (getDirectory h)) w = (w2, Some e)"
    using assms by (simp add: image_loop_append)
  then show ?thesis using main_error[of h w e] by simp
qed

lemma measure_loop_stops:
  "k < length rs \<Longrightarrow>
   (\<forall>j<k. \<exists>r'. measure_row c t n rois (i + j) (rs ! j) = Inr r') \<Longrightarrow>
   measure_row c t n rois (i + k) (rs ! k) = Inl e \<Longrightarrow>
   measure_loop c t n rois i rs = Inl e"
proof (induction rs arbitrary: i k)
  case Nil
  then show ?case by simp
next
  case (Cons r rs)
  show ?case
  proof (cases k)
    case 0
    then show ?thesis using Cons.prems by (simp add: bind_e_def)
  next
    case (Suc k')
    from Cons.prems(2) Suc obtain r' where r': "measure_row c t n rois i r = Inr r'"
      by force
    have "measure_loop c t n rois (Suc i) rs = Inl e"
    proof (rule Cons.IH[of k'])
      show "k' < length rs" using Cons.prems(1) Suc by simp
      show "\<forall>j<k'. \<exists>r'. measure_row c t n rois (Suc i + j) (rs ! j) = Inr r'"
      proof (intro allI impI)
        fix j assume "j < k'"
        then have "Suc j < k" using Suc by simp
        with Cons.prems(2) show "\<exists>r'. measure_row c t n rois (Suc i + j) (rs ! j) = Inr r'"
          by force
      qed
      show "measure_row c t n rois (Suc i + k') (rs ! k') = Inl e"
        using Cons.prems(3) Suc by simp
    qed
    then show ?thesis using r' by (simp add: bind_e_def)
  qed
qed

lemma measure_row_zero_area: "Area r = 0 \<Longrightarrow> measure_row c t n rois i r = Inl ZeroDivisionError"
  by (simp add: measure_row_def ri_zero_area bind_e_def)

lemma measure_rows_zero_area:
  assumes "k < length results" "Area (results ! k) = 0"
  shows "\<exists>e. measure_rows c t rois results = Inl e"
proof (cases "measure_rows c t rois results")
  case (Inl e)
  then show ?thesis by blast
next
  case (Inr out)
  from measure_rows_Inr[OF Inr] assms show ?thesis by force
qed

lemma process_image_csv_unchanged_on_error:
  "snd (process_image h d ad f w) = Some e \<Longrightarrow> csv_files (fst (process_image h d ad f w)) = csv_files w"
  by (cases h d f rule: process_image_cases)
     (simp_all add: process_image_unopened process_image_no_model process_image_no_rois
        process_image_measure_fails process_image_measured csv_files_emit)

subsection \<open>Rows and regions\<close>

lemma measure_rows_lockstep:
  assumes "measure_rows c t rois results = Inr out" "results \<noteq> []"
  shows "length results = length rois \<and> length out = length rois"
proof -
  from assms(1) have loop: "measure_loop c t (length results) rois 0 results = Inr out"
    by (simp add: measure_rows_def)
  from measure_loop_Inr[OF loop] assms(2)
  have len: "length out = length results"
    and "measure_row c t (length results) rois (0 + 0) (results ! 0) = Inr (out ! 0)"
    by simp_all
  from measure_row_Inr[OF this(2)] have "length results = length rois" by blast
  then show ?thesis using len by simp
qed

lemma measure_rows_mismatch_fails:
  assumes "results \<noteq> []" "length results \<noteq> length rois"
  shows "\<exists>e. measure_rows c t rois results = Inl e"
  using measure_rows_lockstep[OF _ assms(1), of c t rois] assms(2)
  by (cases "measure_rows c t rois results") auto

lemma measure_rows_empty: "measure_rows c t rois [] = Inr []"
  by (simp add: measure_rows_def)

subsection \<open>The CSV files and the folder table\<close>

lemma csv_file_of_inj: "csv_file_of sep ad f = csv_file_of sep ad g \<Longrightarrow> f = g"
  by (simp add: csv_file_of_def path_join_def split: if_splits)

lemma process_image_csv_no_rois:
  "surviving_rois h (path_join (os_sep h) d f) = [] \<Longrightarrow>
     csv_files (fst (process_image h d ad f w)) = csv_files w"
  by (cases h d f rule: process_image_cases)
     (simp_all add: process_image_unopened process_image_no_model process_image_no_rois csv_files_emit)

lemma process_image_csv_other:
  "p \<noteq> csv_file_of (os_sep h) ad f \<Longrightarrow>
     csv_files (fst (process_image h d ad f w)) p = csv_files w p"
  by (cases h d f rule: process_image_cases)
     (simp_all add: process_image_unopened process_image_no_model process_image_no_rois
        process_image_measure_fails process_image_measured csv_files_emit)

lemma image_loop_csv_no_rois:
  "surviving_rois h (path_join (os_sep h) d f) = [] \<Longrightarrow>
     csv_files (fst (image_loop h d ad fs w)) (csv_file_of (os_sep h) ad f) =
       csv_files w (csv_file_of (os_sep h) ad f)"
proof (induction fs arbitrary: w)
  case Nil
  then show ?case by simp
next
  case (Cons g fs)
  show ?case
  proof (cases "is_image_name g")
    case False
    then show ?thesis using Cons by simp
  next
    case True
    obtain w' r where p: "process_image h d ad g w = (w', r)" by (cases "process_image h d ad g w")
    have keep: "csv_files w' (csv_file_of (os_sep h) ad f) = csv_files w (csv_file_of (os_sep h) ad f)"
    proof (cases "g = f")
      case True
      then show ?thesis using process_image_csv_no_rois[OF Cons.prems, of ad w] p by simp
    next
      case False
      then have "csv_file_of (os_sep h) ad f \<noteq> csv_file_of (os_sep h) ad g"
        using csv_file_of_inj by blast
      from process_image_csv_other[OF this, of d w] p show ?thesis by simp
    qed
    show ?thesis
    proof (cases r)
      case None
      then show ?thesis using True p keep Cons.IH[OF Cons.prems, of w'] by simp
    next
      case (Some e)
      then show ?thesis using True p keep by simp
    qed
  qed
qed

lemma summary_loop_skip:
  "csv_files w (csv_file_of (os_sep h) ad f) = None \<Longrightarrow>
     summary_loop h ad fs w res = summary_loop h ad (removeAll f fs) w res"
proof (induction fs arbitrary: w res)
  case Nil
  then show ?case by simp
next
  case (Cons g fs)
  show ?case
  proof (cases "g = f")
    case True
    then show ?thesis using Cons by (simp add: Let_def)
  next
    case False
    then show ?thesis using Cons
      by (simp add: Let_def csv_files_emit split: option.splits)
  qed
qed

lemma summary_loop_rows:
  "snd (summary_loop h ad fs w res) =
     res @ concat (map (\<lambda>f. case csv_files w (csv_file_of (os_sep h) ad f) of
                               None \<Rightarrow> [] | Some csv \<Rightarrow> copy_rows csv)
                    (filter is_image_name fs))"
  by (induction fs arbitrary: w res) (simp_all add: Let_def csv_files_emit split: option.splits)

lemma copy_rows_labels:
  "length (copy_rows csv) = length (trows csv) \<and> map fst (copy_rows csv) = map fst (trows csv)"
  by (simp add: copy_rows_def comp_def)

subsection \<open>The selection of the nucleus filter\<close>



subsection \<open>Connected components and the candidate regions\<close>

lemma grow_stop:
  "filter (\<lambda>q. \<exists>p\<in>set grown. adj p q) rest = [] \<Longrightarrow> grow adj grown rest = (grown, rest)"
  by (subst grow.simps) (simp add: Let_def)

lemma grow_more:
  "filter (\<lambda>q. \<exists>p\<in>set grown. adj p q) rest = q # qs \<Longrightarrow>
     grow adj grown rest = grow adj (grown @ q # qs) (filter (\<lambda>q. \<not> (\<exists>p\<in>set grown. adj p q)) rest)"
  by (subst grow.simps) (simp add: Let_def)

lemma grow_unfold:
  "grow adj grown rest =
     (if filter (\<lambda>q. \<exists>p\<in>set grown. adj p q) rest = [] then (grown, rest)
      else grow adj (grown @ filter (\<lambda>q. \<exists>p\<in>set grown. adj p q) rest)
             (filter (\<lambda>q. \<not> (\<exists>p\<in>set grown. adj p q)) rest))"
  by (subst grow.simps) (simp add: Let_def)

lemma grow_sets:
  "set (fst (grow adj grown rest)) \<union> set (snd (grow adj grown rest)) = set grown \<union> set rest \<and>
   set grown \<subseteq> set (fst (grow adj grown rest)) \<and>
   set (snd (grow adj grown rest)) \<subseteq> set rest"
proof (induction adj grown rest rule: grow.induct)
  case (1 adj grown rest)
  let ?new = "filter (\<lambda>q. \<exists>p\<in>set grown. adj p q) rest"
  let ?rest' = "filter (\<lambda>q. \<not> (\<exists>p\<in>set grown. adj p q)) rest"
  show ?case
  proof (cases "?new = []")
    case True
    then have "grow adj grown rest = (grown, rest)" by (rule grow_stop)
    then show ?thesis by simp
  next
    case False
    then have eq: "grow adj grown rest = grow adj (grown @ ?new) ?rest'"
      by (subst grow_unfold) simp
    have part: "set ?new \<union> set ?rest' = set rest" by auto
    from 1[OF refl False] part show ?thesis unfolding eq by auto
  qed
qed

lemma grow_distinct:
  "distinct (grown @ rest) \<Longrightarrow> distinct (fst (grow adj grown rest) @ snd (grow adj grown rest))"
proof (induction adj grown rest rule: grow.induct)
  case (1 adj grown rest)
  let ?new = "filter (\<lambda>q. \<exists>p\<in>set grown. adj p q) rest"
  let ?rest' = "filter (\<lambda>q. \<not> (\<exists>p\<in>set grown. adj p q)) rest"
  show ?case
  proof (cases "?new = []")
    case True
    then have "grow adj grown rest = (grown, rest)" by (rule grow_stop)
    then show ?thesis using 1(2) by simp
  next
    case False
    then have eq: "grow adj grown rest = grow adj (grown @ ?new) ?rest'"
      by (subst grow_unfold) simp
    have "distinct ((grown @ ?new) @ ?rest')" using 1(2) by auto
    from 1(1)[OF refl False this] show ?thesis unfolding eq .
  qed
qed

lemma grow_closed:
  "a \<in> set (fst (grow adj grown rest)) \<Longrightarrow> b \<in> set (snd (grow adj grown rest)) \<Longrightarrow> \<not> adj a b"
proof (induction adj grown rest rule: grow.induct)
  case (1 adj grown rest)
  let ?new = "filter (\<lambda>q. \<exists>p\<in>set grown. adj p q) rest"
  let ?rest' = "filter (\<lambda>q. \<not> (\<exists>p\<in>set grown. adj p q)) rest"
  show ?case
  proof (cases "?new = []")
    case True
    then have eq: "grow adj grown rest = (grown, rest)" by (rule grow_stop)
    from True have "\<forall>q\<in>set rest. \<not> (\<exists>p\<in>set grown. adj p q)"
      by (simp add: filter_empty_conv)
    then show ?thesis using 1(2,3) unfolding eq by auto
  next
    case False
    then have eq: "grow adj grown rest = grow adj (grown @ ?new) ?rest'"
      by (subst grow_unfold) simp
    from 1(1)[OF refl False] 1(2,3) show ?thesis unfolding eq by blast
  qed
qed

lemma grow_inside:
  "set grown \<subseteq> P \<Longrightarrow> (\<forall>a\<in>P. \<forall>b\<in>set rest. adj a b \<longrightarrow> b \<in> P) \<Longrightarrow>
     set (fst (grow adj grown rest)) \<subseteq> P"
proof (induction adj grown rest rule: grow.induct)
  case (1 adj grown rest)
  let ?new = "filter (\<lambda>q. \<exists>p\<in>set grown. adj p q) rest"
  let ?rest' = "filter (\<lambda>q. \<not> (\<exists>p\<in>set grown. adj p q)) rest"
  show ?case
  proof (cases "?new = []")
    case True
    then have eq: "grow adj grown rest = (grown, rest)" by (rule grow_stop)
    show ?thesis using 1(2) unfolding eq by simp
  next
    case False
    then have eq: "grow adj grown rest = grow adj (grown @ ?new) ?rest'"
      by (subst grow_unfold) simp
    have "set (grown @ ?new) \<subseteq> P" using 1(2,3) by auto
    moreover have "\<forall>a\<in>P. \<forall>b\<in>set ?rest'. adj a b \<longrightarrow> b \<in> P" using 1(3) by auto
    ultimately show ?thesis using 1(1)[OF refl False] unfolding eq by blast
  qed
qed

lemma conn_extend:
  assumes c: "conn adj G" and ne: "G \<noteq> {}" and new: "\<forall>q\<in>N. \<exists>p\<in>G. adj p q"
  shows "conn adj (G \<union> N)"
  unfolding conn_def
proof (intro allI impI)
  fix S assume S: "S \<subseteq> G \<union> N \<and> S \<noteq> {} \<and> S \<noteq> G \<union> N"
  show "\<exists>a\<in>S. \<exists>b\<in>(G \<union> N) - S. adj a b \<or> adj b a"
  proof (cases "S \<inter> G = {}")
    case True
    from S obtain q where q: "q \<in> S" by blast
    with True S have "q \<in> N" by blast
    with new obtain p where p: "p \<in> G" "adj p q" by blast
    with True have "p \<notin> S" by blast
    with p q show ?thesis by blast
  next
    case False
    show ?thesis
    proof (cases "G \<subseteq> S")
      case True
      from S obtain q where q: "q \<in> G \<union> N" "q \<notin> S" by blast
      with True have "q \<in> N" by blast
      with new obtain p where p: "p \<in> G" "adj p q" by blast
      with True have "p \<in> S" by blast
      with p q show ?thesis by blast
    next
      case nsub: False
      have "S \<inter> G \<subseteq> G \<and> S \<inter> G \<noteq> {} \<and> S \<inter> G \<noteq> G" using False nsub by blast
      with c obtain a b where "a \<in> S \<inter> G" "b \<in> G - S \<inter> G" "adj a b \<or> adj b a"
        unfolding conn_def by blast
      then show ?thesis by blast
    qed
  qed
qed

lemma conn_single: "conn adj {p}"
  unfolding conn_def by blast

lemma grow_conn:
  "conn adj (set grown) \<Longrightarrow> grown \<noteq> [] \<Longrightarrow> conn adj (set (fst (grow adj grown rest)))"
proof (induction adj grown rest rule: grow.induct)
  case (1 adj grown rest)
  let ?new = "filter (\<lambda>q. \<exists>p\<in>set grown. adj p q) rest"
  let ?rest' = "filter (\<lambda>q. \<not> (\<exists>p\<in>set grown. adj p q)) rest"
  show ?case
  proof (cases "?new = []")
    case True
    then have eq: "grow adj grown rest = (grown, rest)" by (rule grow_stop)
    show ?thesis using 1(2) unfolding eq by simp
  next
    case False
    then have eq: "grow adj grown rest = grow adj (grown @ ?new) ?rest'"
      by (subst grow_unfold) simp
    have "conn adj (set grown \<union> set ?new)"
      using 1(2,3) by (intro conn_extend) auto
    then have "conn adj (set (grown @ ?new))" by simp
    moreover have "grown @ ?new \<noteq> []" using 1(3) by simp
    ultimately show ?thesis using 1(1)[OF refl False] unfolding eq by blast
  qed
qed

lemma components_member:
  "c \<in> set (components adj pts) \<Longrightarrow> set c \<subseteq> set pts \<and> c \<noteq> [] \<and> conn adj (set c)"
proof (induction adj pts rule: components.induct)
  case (1 adj)
  then show ?case by simp
next
  case (2 adj p ps)
  from 2(2) consider "c = fst (grow adj [p] ps)" | "c \<in> set (components adj (snd (grow adj [p] ps)))"
    by auto
  then show ?case
  proof cases
    case 1
    have "set c \<subseteq> set (p # ps)" using grow_sets[of adj "[p]" ps] 1 by auto
    moreover have "c \<noteq> []" using grow_sets[of adj "[p]" ps] 1 by auto
    moreover have "conn adj (set c)" unfolding 1 by (rule grow_conn) (simp_all add: conn_single)
    ultimately show ?thesis by blast
  next
    case b: 2
    from 2(1)[OF b] grow_sets[of adj "[p]" ps] show ?thesis by auto
  qed
qed

lemma components_distinct:
  "distinct pts \<Longrightarrow> c \<in> set (components adj pts) \<Longrightarrow> distinct c"
proof (induction adj pts rule: components.induct)
  case (1 adj)
  then show ?case by simp
next
  case (2 adj p ps)
  have d: "distinct (fst (grow adj [p] ps) @ snd (grow adj [p] ps))"
    using 2(2) by (intro grow_distinct) simp
  from 2(3) consider "c = fst (grow adj [p] ps)" | "c \<in> set (components adj (snd (grow adj [p] ps)))"
    by auto
  then show ?case
  proof cases
    case 1
    then show ?thesis using d by simp
  next
    case b: 2
    from d have "distinct (snd (grow adj [p] ps))" by simp
    from 2(1)[OF this b] show ?thesis .
  qed
qed

lemma components_none:
  assumes "P \<noteq> {}" "P \<inter> set pts = {}"
  shows "filter (\<lambda>c. set c = P) (components adj pts) = []"
proof -
  have "set c \<noteq> P" if "c \<in> set (components adj pts)" for c
  proof
    assume eq: "set c = P"
    from components_member[OF that] have sub: "set c \<subseteq> set pts" and "c \<noteq> []" by simp_all
    then obtain x where "x \<in> set c" by (cases c) auto
    then have "x \<in> P" "x \<in> set pts" using eq sub by auto
    with assms(2) show False by auto
  qed
  then show ?thesis by (simp add: filter_empty_conv)
qed

lemma components_one:
  assumes ne: "P \<noteq> {}"
  shows "distinct pts \<Longrightarrow> P \<subseteq> set pts \<Longrightarrow> (\<forall>a\<in>P. \<forall>b\<in>set pts - P. \<not> adj a b) \<Longrightarrow>
         \<forall>a b. adj a b \<longrightarrow> adj b a \<Longrightarrow> conn adj P \<Longrightarrow>
         length (filter (\<lambda>c. set c = P) (components adj pts)) = 1"
proof (induction adj pts rule: components.induct)
  case (1 adj)
  then show ?case using ne by simp
next
  case (2 adj p ps)
  let ?c = "fst (grow adj [p] ps)"
  let ?r = "snd (grow adj [p] ps)"
  have sets: "set ?c \<union> set ?r = set (p # ps)" "p \<in> set ?c" "set ?r \<subseteq> set ps"
    using grow_sets[of adj "[p]" ps] by auto
  have dist: "distinct (?c @ ?r)" using 2(2) by (intro grow_distinct) simp
  then have disj: "set ?c \<inter> set ?r = {}" and dr: "distinct ?r" by auto
  note sym = 2(5) and c = 2(6)
  show ?case
  proof (cases "p \<in> P")
    case True
    have sub: "set ?c \<subseteq> P"
    proof (rule grow_inside)
      show "set [p] \<subseteq> P" using True by simp
      show "\<forall>a\<in>P. \<forall>b\<in>set ps. adj a b \<longrightarrow> b \<in> P"
      proof (intro ballI impI)
        fix a b assume ab: "a \<in> P" "b \<in> set ps" "adj a b"
        show "b \<in> P"
        proof (rule ccontr)
          assume "b \<notin> P"
          then have "b \<in> set (p # ps) - P" using ab(2) by simp
          with 2(4) ab(1) have "\<not> adj a b" by simp
          then show False using ab(3) by simp
        qed
      qed
    qed
    have "set ?c = P"
    proof (rule ccontr)
      assume neq: "set ?c \<noteq> P"
      have nonempty: "set ?c \<noteq> {}" using sets(2) by auto
      from c have "set ?c \<subseteq> P \<and> set ?c \<noteq> {} \<and> set ?c \<noteq> P \<longrightarrow>
          (\<exists>a\<in>set ?c. \<exists>b\<in>P - set ?c. adj a b \<or> adj b a)"
        unfolding conn_def by (rule spec)
      with sub nonempty neq obtain a b where ab: "a \<in> set ?c" "b \<in> P - set ?c" "adj a b \<or> adj b a"
        by auto
      have adj: "adj a b" using ab(3) sym by auto
      have "b \<in> set (p # ps)" using ab(2) 2(3) by auto
      then have "b \<in> set ?r" using ab(2) sets(1) by auto
      from grow_closed[OF ab(1) this] adj show False by simp
    qed
    moreover have "filter (\<lambda>c. set c = P) (components adj ?r) = []"
    proof (rule components_none[OF ne])
      show "P \<inter> set ?r = {}" using \<open>set ?c = P\<close> disj by auto
    qed
    ultimately show ?thesis by simp
  next
    case False
    have sub: "set ?c \<subseteq> set (p # ps) - P"
    proof (rule grow_inside)
      show "set [p] \<subseteq> set (p # ps) - P" using False by simp
      show "\<forall>a\<in>set (p # ps) - P. \<forall>b\<in>set ps. adj a b \<longrightarrow> b \<in> set (p # ps) - P"
      proof (intro ballI impI)
        fix a b assume a: "a \<in> set (p # ps) - P" and b: "b \<in> set ps" and ab: "adj a b"
        show "b \<in> set (p # ps) - P"
        proof (rule ccontr)
          assume "b \<notin> set (p # ps) - P"
          then have bP: "b \<in> P" using b by simp
          have "a \<in> set (p # ps) - P" by (rule a)
          with 2(4) bP have "\<not> adj b a" by simp
          moreover have "adj b a" using ab sym by auto
          ultimately show False by simp
        qed
      qed
    qed
    then have "set ?c \<noteq> P" using sets(2) False by auto
    moreover have "length (filter (\<lambda>c. set c = P) (components adj ?r)) = 1"
    proof (rule 2(1)[OF dr _ _ sym c])
      show "P \<subseteq> set ?r"
      proof
        fix x assume x: "x \<in> P"
        then have "x \<in> set (p # ps)" using 2(3) by auto
        moreover have "x \<notin> set ?c" using sub x by auto
        ultimately show "x \<in> set ?r" using sets(1) by auto
      qed
      show "\<forall>a\<in>P. \<forall>b\<in>set ?r - P. \<not> adj a b"
      proof (intro ballI)
        fix a b assume "a \<in> P" "b \<in> set ?r - P"
        then have "a \<in> P" "b \<in> set (p # ps) - P" using sets(3) by auto
        with 2(4) show "\<not> adj a b" by simp
      qed
    qed
    ultimately show ?thesis by simp
  qed
qed

lemma near_sym: "near a b \<Longrightarrow> near b a"
  by (simp add: near_def)

lemma adj8_sym: "\<forall>a b. adj8 a b \<longrightarrow> adj8 b a"
  by (simp add: adj8_def near_sym)

lemma adj26_adj8: "adj26 v v' \<Longrightarrow> adj8 (fst v, fst (snd v)) (fst v', fst (snd v'))"
  by (simp add: adj26_def adj8_def)

lemma conn_image:
  assumes c: "conn adj V" and m: "\<forall>a b. adj a b \<longrightarrow> adj' (f a) (f b)"
  shows "conn adj' (f ` V)"
  unfolding conn_def
proof (intro allI impI)
  fix S assume S: "S \<subseteq> f ` V \<and> S \<noteq> {} \<and> S \<noteq> f ` V"
  let ?S' = "{v \<in> V. f v \<in> S}"
  from S obtain y where "y \<in> S" by auto
  with S obtain v where "v \<in> V" "f v \<in> S" by auto
  then have ne: "?S' \<noteq> {}" by auto
  from S obtain z where "z \<in> f ` V" "z \<notin> S" by auto
  then obtain u where "u \<in> V" "f u \<notin> S" by auto
  then have neq: "?S' \<noteq> V" by auto
  have "?S' \<subseteq> V \<and> ?S' \<noteq> {} \<and> ?S' \<noteq> V" using ne neq by auto
  moreover from c have "?S' \<subseteq> V \<and> ?S' \<noteq> {} \<and> ?S' \<noteq> V \<longrightarrow> (\<exists>a\<in>?S'. \<exists>b\<in>V - ?S'. adj a b \<or> adj b a)"
    unfolding conn_def by (rule spec)
  ultimately obtain a b where ab: "a \<in> ?S'" "b \<in> V - ?S'" "adj a b \<or> adj b a" by auto
  have "f a \<in> S" using ab(1) by simp
  moreover have "f b \<in> f ` V - S" using ab(2) by auto
  moreover have "adj' (f a) (f b) \<or> adj' (f b) (f a)" using ab(3) m by auto
  ultimately show "\<exists>a\<in>S. \<exists>b\<in>f ` V - S. adj' a b \<or> adj' b a" by auto
qed

lemma footprint_set: "set (footprint obj) = (\<lambda>v. (fst v, fst (snd v))) ` set obj"
  by (simp add: footprint_def)

lemma footprint_distinct: "distinct (footprint obj)"
  by (simp add: footprint_def)

lemma mask_set: "set (z_project_mask objs) = (\<Union>obj\<in>set objs. set (footprint obj))"
  by (auto simp: z_project_mask_def footprint_set)

lemma mask_distinct: "distinct (z_project_mask objs)"
  by (simp add: z_project_mask_def footprint_distinct)

lemma kept_object:
  "obj \<in> set (objects_counter_3d lo hi fg) \<longleftrightarrow>
     obj \<in> set (components adj26 fg) \<and> lo \<le> length obj \<and> length obj \<le> hi"
  by (simp add: objects_counter_3d_def)

lemma footprint_conn:
  assumes "obj \<in> set (components adj26 fg)"
  shows "conn adj8 (set (footprint obj)) \<and> set (footprint obj) \<noteq> {}"
proof -
  from components_member[OF assms] have c: "conn adj26 (set obj)" and ne: "obj \<noteq> []" by simp_all
  have "conn adj8 ((\<lambda>v. (fst v, fst (snd v))) ` set obj)"
    using c by (rule conn_image) (simp add: adj26_adj8)
  then show ?thesis using ne by (simp add: footprint_set)
qed

lemma same_set_measures:
  assumes "distinct c" "distinct d" "set c = set d"
  shows "calibrated_area a c = calibrated_area a d \<and> touches_edge w h c = touches_edge w h d"
proof -
  have "length c = length d" using assms by (metis distinct_card)
  then show ?thesis using assms(3) by (simp add: calibrated_area_def touches_edge_def)
qed

lemma candidate_pixels:
  assumes "region \<in> set (candidate_rois s)" "p \<in> set region"
  shows "\<exists>obj\<in>set (components adj26 (st_foreground s)).
           MICROGLIA_MIN_SIZE_3D \<le> length obj \<and> p \<in> set (footprint obj)"
proof -
  let ?kept = "objects_counter_3d MICROGLIA_MIN_SIZE_3D 9999999 (st_foreground s)"
  from assms(1) have "region \<in> set (components adj8 (z_project_mask ?kept))"
    by (simp add: candidate_rois_def analyze_particles_def)
  from components_member[OF this] assms(2) have "p \<in> set (z_project_mask ?kept)" by auto
  then obtain obj where "obj \<in> set ?kept" "p \<in> set (footprint obj)"
    by (auto simp: mask_set)
  then show ?thesis by (auto simp: kept_object)
qed

lemma candidates_below_floor:
  assumes "\<forall>obj\<in>set (components adj26 (st_foreground s)). length obj < MICROGLIA_MIN_SIZE_3D"
  shows "candidate_rois s = []"
proof -
  have "objects_counter_3d MICROGLIA_MIN_SIZE_3D 9999999 (st_foreground s) = []"
    using assms by (auto simp: objects_counter_3d_def filter_empty_conv)
  then show ?thesis
    by (simp add: candidate_rois_def analyze_particles_def z_project_mask_def footprint_def)
qed

lemma isolated_object_once:
  assumes kept: "obj \<in> set (objects_counter_3d MICROGLIA_MIN_SIZE_3D 9999999 (st_foreground s))"
    and iso: "\<forall>other\<in>set (objects_counter_3d MICROGLIA_MIN_SIZE_3D 9999999 (st_foreground s)).
                other \<noteq> obj \<longrightarrow> (\<forall>a\<in>set (footprint obj). \<forall>b\<in>set (footprint other). \<not> adj8 a b)"
  shows "length (filter (\<lambda>region. set region = set (footprint obj)) (candidate_rois s)) =
           (if MICROGLIA_MIN_SIZE \<le> calibrated_area (pixel_area s) (footprint obj) \<and>
               calibrated_area (pixel_area s) (footprint obj) \<le> MICROGLIA_MAX_SIZE \<and>
               \<not> touches_edge (st_width s) (st_height s) (footprint obj)
            then 1 else 0)"
proof -
  let ?kept = "objects_counter_3d MICROGLIA_MIN_SIZE_3D 9999999 (st_foreground s)"
  let ?mask = "z_project_mask ?kept"
  let ?P = "set (footprint obj)"
  let ?F = "\<lambda>region. MICROGLIA_MIN_SIZE \<le> calibrated_area (pixel_area s) region \<and>
               calibrated_area (pixel_area s) region \<le> MICROGLIA_MAX_SIZE \<and>
               \<not> touches_edge (st_width s) (st_height s) region"
  from kept have comp: "obj \<in> set (components adj26 (st_foreground s))" by (simp add: kept_object)
  from footprint_conn[OF comp] have conn: "conn adj8 ?P" and ne: "?P \<noteq> {}" by simp_all
  have sub: "?P \<subseteq> set ?mask" using kept by (auto simp: mask_set)
  have alone: "\<forall>a\<in>?P. \<forall>b\<in>set ?mask - ?P. \<not> adj8 a b"
  proof (intro ballI)
    fix a b assume a: "a \<in> ?P" and b: "b \<in> set ?mask - ?P"
    then obtain other where o: "other \<in> set ?kept" "b \<in> set (footprint other)"
      by (auto simp: mask_set)
    with b have "other \<noteq> obj" by auto
    with iso o a show "\<not> adj8 a b" by auto
  qed
  have one: "length (filter (\<lambda>c. set c = ?P) (components adj8 ?mask)) = 1"
    by (rule components_one[OF ne mask_distinct sub alone adj8_sym conn])
  have same: "?F c = ?F (footprint obj)" if "c \<in> set (components adj8 ?mask)" "set c = ?P" for c
  proof -
    have "distinct c" using mask_distinct that(1) by (rule components_distinct)
    from same_set_measures[OF this footprint_distinct that(2)] show ?thesis by simp
  qed
  have "filter (\<lambda>region. set region = ?P) (candidate_rois s) =
        filter (\<lambda>c. set c = ?P \<and> ?F c) (components adj8 ?mask)"
    by (simp add: candidate_rois_def analyze_particles_def conj_commute)
  also have "\<dots> = filter (\<lambda>c. set c = ?P \<and> ?F (footprint obj)) (components adj8 ?mask)"
    by (rule filter_cong[OF refl]) (use same in blast)
  finally have "length (filter (\<lambda>region. set region = ?P) (candidate_rois s)) =
      (if ?F (footprint obj) then length (filter (\<lambda>c. set c = ?P) (components adj8 ?mask)) else 0)"
    by simp
  then show ?thesis using one by simp
qed

subsection \<open>The example inputs\<close>

lemma demo_ri: "ri_of 40 100 = Inr (40 / 100 / (2 * sqrt (pi / 100)))"
  by (rule ri_value) simp

lemma demo_ri_ge: "1 \<le> (40::real) / 100 / (2 * sqrt (pi / 100))"
proof -
  have "4 * pi * 100 \<le> (40::real)\<^sup>2" using pi_less_4 by simp
  then show ?thesis using ri_ge_1_iff[of 100 40] by simp
qed

lemma demo_cable: "get_cable_length [0, 255, 0] demo_trees = Inr (7 / 2)"
  by (simp add: get_cable_length_def raw_max_def demo_trees_def bind_e_def cable_metric_def)

lemma demo_measure_row:
  "n = length rois \<Longrightarrow>
     measure_row (\<lambda>roi. [0, 255, 0]) (\<lambda>roi. demo_trees) n rois i demo_row = Inr demo_row_done"
  using demo_ri demo_ri_ge demo_cable
  by (simp add: measure_row_def bind_e_def demo_row_def demo_row_done_def)

lemma demo_measure_loop:
  "n = length rois \<Longrightarrow>
     measure_loop (\<lambda>roi. [0, 255, 0]) (\<lambda>roi. demo_trees) n rois i (replicate k demo_row) =
       Inr (replicate k demo_row_done)"
  by (induction k arbitrary: i) (simp_all add: demo_measure_row bind_e_def)

lemma demo_fields:
  "os_sep demo_host = CHR ''/''"
  "getDirectory demo_host = ''/data/''"
  "listdir demo_host d = [''a.tif'', ''notes.txt'', ''b.nd2'']"
  "expanduser demo_host p = ''/home/me'' @ drop 1 p"
  "path_exists demo_host p = True"
  "image_count demo_host p = 1"
  "particles demo_host p = (if p = ''/data/a.tif'' then [0, 1, 2, 3] else [0, 1, 2])"
  "rm_delete demo_host = delete_selected"
  "wait_for_user demo_host p rois = rois"
  "rm_measure demo_host p rois = replicate (length rois) demo_row"
  "crop_pixels demo_host p = (\<lambda>roi. [0, 255, 0])"
  "skeleton_trees demo_host p = (\<lambda>roi. demo_trees)"
  by (simp_all add: demo_host_def map_replicate_const)

lemma demo_stats:
  "nuclei_stats demo_host p roi = \<lparr>stat_area = 100, stat_areaFraction = (if roi = 1 then 5 else 30)\<rparr>"
  by (simp add: demo_host_def)

lemma demo_measure_rows:
  "measure_rows (crop_pixels demo_host p) (skeleton_trees demo_host p) rois (rm_measure demo_host p rois) =
     Inr (replicate (length rois) demo_row_done)"
  by (simp add: measure_rows_def demo_fields demo_measure_loop)

lemma demo_names:
  "is_image_name ''a.tif''" "\<not> is_image_name ''notes.txt''" "is_image_name ''b.nd2''"
  by (simp_all add: is_image_name_def endswith_def)

lemma demo_paths:
  "path_join CHR ''/'' ''/data/'' ''a.tif'' = ''/data/a.tif''"
  "path_join CHR ''/'' ''/data/'' ''b.nd2'' = ''/data/b.nd2''"
  "path_join CHR ''/'' ''/data/'' ''analysis_v9'' = ''/data/analysis_v9''"
  "csv_file_of CHR ''/'' ''/data/analysis_v9'' ''a.tif'' = ''/data/analysis_v9/a.tif.csv''"
  "csv_file_of CHR ''/'' ''/data/analysis_v9'' ''b.nd2'' = ''/data/analysis_v9/b.nd2.csv''"
  by (simp_all add: path_join_def csv_file_of_def)

lemma demo_survivors:
  "surviving_rois demo_host ''/data/a.tif'' = [0, 2, 3]"
  "surviving_rois demo_host ''/data/b.nd2'' = [0, 2]"
  by (simp_all add: surviving_rois_def nucleus_filter_def demo_fields demo_stats delete_selected_def
      sum_nuclei_gray_def NUCLEUS_INTERSECTION_WITH_CELL_def upt_rec)

lemma demo_process:
  assumes "surviving_rois demo_host (path_join (os_sep demo_host) d f) \<noteq> []"
  shows "process_image demo_host d ad f w =
     (emit (SaveImage (ad @ ''/'' @ f @ ''_masks.png''))
        (emit (SaveImage (ad @ ''/'' @ f @ ''.tif''))
          (emit (ReadAndWriteExcel (path_join (os_sep demo_host) ad (f @ ''.xlsx'')))
            (emit Summarize
              (emit (SaveAsResults (csv_file_of (os_sep demo_host) ad f))
                ((emit WaitForUserDialog
                  (emit (PixelClassification (expanduser demo_host MEMBRANE_MODEL_FILE) (path_join (os_sep demo_host) d f))
                    (emit (ExistsCheck (expanduser demo_host MEMBRANE_MODEL_FILE))
                      (emit (BioFormatsImporter (path_join (os_sep demo_host) d f)) w))))
                 \<lparr>csv_files := (csv_files w)(csv_file_of (os_sep demo_host) ad f \<mapsto>
                     results_to_csv (replicate (length (surviving_rois demo_host (path_join (os_sep demo_host) d f))) demo_row_done))\<rparr>))))),
      None)"
proof (rule process_image_measured)
  show "image_count demo_host (path_join (os_sep demo_host) d f) \<noteq> 0" by (simp add: demo_fields)
  show "path_exists demo_host (expanduser demo_host MEMBRANE_MODEL_FILE)" by (simp add: demo_fields)
  show "surviving_rois demo_host (path_join (os_sep demo_host) d f) \<noteq> []" by (rule assms)
  show "measure_rows (crop_pixels demo_host (path_join (os_sep demo_host) d f))
     (skeleton_trees demo_host (path_join (os_sep demo_host) d f))
     (surviving_rois demo_host (path_join (os_sep demo_host) d f))
     (rm_measure demo_host (path_join (os_sep demo_host) d f)
       (surviving_rois demo_host (path_join (os_sep demo_host) d f))) =
    Inr (replicate (length (surviving_rois demo_host (path_join (os_sep demo_host) d f))) demo_row_done)"
    by (rule demo_measure_rows)
qed

lemma demo_image_loop:
  "image_loop demo_host ''/data/'' ''/data/analysis_v9'' [''a.tif'', ''notes.txt'', ''b.nd2''] w0 =
     (\<lparr>events =
        [BioFormatsImporter ''/data/a.tif'',
         ExistsCheck (expanduser demo_host MEMBRANE_MODEL_FILE),
         PixelClassification (expanduser demo_host MEMBRANE_MODEL_FILE) ''/data/a.tif'',
         WaitForUserDialog,
         SaveAsResults ''/data/analysis_v9/a.tif.csv'',
         Summarize,
         ReadAndWriteExcel ''/data/analysis_v9/a.tif.xlsx'',
         SaveImage ''/data/analysis_v9/a.tif.tif'',
         SaveImage ''/data/analysis_v9/a.tif_masks.png'',
         BioFormatsImporter ''/data/b.nd2'',
         ExistsCheck (expanduser demo_host MEMBRANE_MODEL_FILE),
         PixelClassification (expanduser demo_host MEMBRANE_MODEL_FILE) ''/data/b.nd2'',
         WaitForUserDialog,
         SaveAsResults ''/data/analysis_v9/b.nd2.csv'',
         Summarize,
         ReadAndWriteExcel ''/data/analysis_v9/b.nd2.xlsx'',
         SaveImage ''/data/analysis_v9/b.nd2.tif'',
         SaveImage ''/data/analysis_v9/b.nd2_masks.png''],
       csv_files = ((\<lambda>p. None)
          (''/data/analysis_v9/a.tif.csv'' \<mapsto> results_to_csv [demo_row_done, demo_row_done, demo_row_done],
           ''/data/analysis_v9/b.nd2.csv'' \<mapsto> results_to_csv [demo_row_done, demo_row_done]))\<rparr>,
      None)"
  by (simp add: demo_names demo_process demo_fields demo_paths demo_survivors emit_def w0_def path_join_def)

lemma demo_copy_rows:
  "copy_rows (results_to_csv rows) =
     map (\<lambda>r. (row_label r,
            [(''Area'', Area r), (''Perim.'', Perim r),
             (''RI'', case RI r of Some v \<Rightarrow> v | None \<Rightarrow> 0),
             (''Cable_Length'', case Cable_Length r of Some v \<Rightarrow> v | None \<Rightarrow> 0)])) rows"
  by (simp add: copy_rows_def results_to_csv_def)

lemma demo_world_after_images:
  "image_loop demo_host (getDirectory demo_host)
     (path_join (os_sep demo_host) (getDirectory demo_host) ''analysis_v9'')
     (listdir demo_host (getDirectory demo_host)) w0 =
   image_loop demo_host ''/data/'' ''/data/analysis_v9'' [''a.tif'', ''notes.txt'', ''b.nd2''] w0"
  by (simp only: demo_fields demo_paths)

lemma demo_main_completes: "snd (snd (main demo_host w0)) = None"
  by (simp only: main_result_iff demo_world_after_images demo_image_loop snd_conv)

lemma demo_main_table:
  "fst (snd (main demo_host w0)) =
     Some [demo_summary_row, demo_summary_row, demo_summary_row, demo_summary_row, demo_summary_row]"
proof -
  have c: "snd (image_loop demo_host (getDirectory demo_host)
     (path_join (os_sep demo_host) (getDirectory demo_host) ''analysis_v9'')
     (listdir demo_host (getDirectory demo_host)) w0) = None"
    by (simp only: demo_world_after_images demo_image_loop snd_conv)
  show ?thesis
    unfolding main_completes[OF c] demo_world_after_images demo_image_loop
    by (simp add: demo_fields demo_paths demo_names emit_def Let_def
      demo_copy_rows demo_row_done_def demo_row_def demo_summary_row_def)
qed

lemma demo_main_checks: "n_checks (fst (main demo_host w0)) = 2"
proof -
  have c: "snd (image_loop demo_host (getDirectory demo_host)
     (path_join (os_sep demo_host) (getDirectory demo_host) ''analysis_v9'')
     (listdir demo_host (getDirectory demo_host)) w0) = None"
    by (simp only: demo_world_after_images demo_image_loop snd_conv)
  have "n_checks (fst (main demo_host w0)) =
     n_checks (fst (image_loop demo_host (getDirectory demo_host)
     (path_join (os_sep demo_host) (getDirectory demo_host) ''analysis_v9'')
     (listdir demo_host (getDirectory demo_host)) w0))"
    unfolding main_completes[OF c]
    by (simp add: n_checks_emit is_check_def summary_loop_world)
  also have "\<dots> = n_checks w0 + length (filter is_image_name (listdir demo_host (getDirectory demo_host)))"
    using c by (rule image_loop_checks)
  also have "\<dots> = 2"
    by (simp add: n_checks_def w0_def demo_fields demo_names)
  finally show ?thesis .
qed

lemma no_model_fields:
  "path_exists no_model_host p = False"
  "image_count no_model_host p = 1"
  "os_sep no_model_host = CHR ''/''"
  "getDirectory no_model_host = ''/data/''"
  "listdir no_model_host d = [''a.tif'', ''notes.txt'', ''b.nd2'']"
  "expanduser no_model_host p = ''/home/me'' @ drop 1 p"
  by (simp_all add: no_model_host_def demo_host_def)

lemma no_images_fields:
  "path_exists no_images_host p = False"
  "getDirectory no_images_host = ''/data/''"
  "listdir no_images_host d = [''notes.txt'']"
  by (simp_all add: no_images_host_def no_model_host_def demo_host_def)

lemma unreadable_fields:
  "os_sep unreadable_host = CHR ''/''"
  "getDirectory unreadable_host = ''/data/''"
  "listdir unreadable_host d = [''a.tif'', ''notes.txt'', ''b.nd2'']"
  "image_count unreadable_host p = (if p = ''/data/a.tif'' then 0 else 1)"
  by (simp_all add: unreadable_host_def demo_host_def)

lemma zero_area_fields:
  "os_sep zero_area_host = CHR ''/''"
  "getDirectory zero_area_host = ''/data/''"
  "listdir zero_area_host d = [''a.tif'', ''notes.txt'', ''b.nd2'']"
  "expanduser zero_area_host p = ''/home/me'' @ drop 1 p"
  "path_exists zero_area_host p = True"
  "image_count zero_area_host p = 1"
  "rm_measure zero_area_host p rois = map (\<lambda>roi. demo_row\<lparr>Area := 0, Perim := 0\<rparr>) rois"
  by (simp_all add: zero_area_host_def demo_host_def)

lemma zero_area_survivors: "surviving_rois zero_area_host ''/data/a.tif'' = [0, 2, 3]"
  by (simp add: surviving_rois_def nucleus_filter_def zero_area_host_def demo_fields demo_stats
      delete_selected_def sum_nuclei_gray_def NUCLEUS_INTERSECTION_WITH_CELL_def upt_rec)

lemma zero_area_measure:
  "rois \<noteq> [] \<Longrightarrow>
     measure_rows crop_of trees_of rois (rm_measure zero_area_host p rois) = Inl ZeroDivisionError"
  by (cases rois) (simp_all add: measure_rows_def zero_area_fields measure_row_zero_area bind_e_def)

lemma zero_area_main:
  "main zero_area_host w0 =
     (\<lparr>events = [BioFormatsImporter ''/data/a.tif'',
                 ExistsCheck (expanduser zero_area_host MEMBRANE_MODEL_FILE),
                 PixelClassification (expanduser zero_area_host MEMBRANE_MODEL_FILE) ''/data/a.tif'',
                 WaitForUserDialog],
       csv_files = (\<lambda>p. None)\<rparr>, None, Some ZeroDivisionError)"
proof -
  have "main zero_area_host w0 =
     (emit WaitForUserDialog
        (emit (PixelClassification (expanduser zero_area_host MEMBRANE_MODEL_FILE) (path_join (os_sep zero_area_host) (getDirectory zero_area_host) ''a.tif''))
          (emit (ExistsCheck (expanduser zero_area_host MEMBRANE_MODEL_FILE))
            (emit (BioFormatsImporter (path_join (os_sep zero_area_host) (getDirectory zero_area_host) ''a.tif'')) w0))), None, Some ZeroDivisionError)"
  proof (rule main_aborts_at[where pre = "[]" and post = "[''notes.txt'', ''b.nd2'']"])
    show "listdir zero_area_host (getDirectory zero_area_host) = [] @ ''a.tif'' # [''notes.txt'', ''b.nd2'']"
      by (simp add: zero_area_fields)
    show "is_image_name ''a.tif''" by (rule demo_names)
    show "image_loop zero_area_host (getDirectory zero_area_host)
       (path_join (os_sep zero_area_host) (getDirectory zero_area_host) ''analysis_v9'') [] w0 = (w0, None)"
      by simp
    show "process_image zero_area_host (getDirectory zero_area_host)
       (path_join (os_sep zero_area_host) (getDirectory zero_area_host) ''analysis_v9'') ''a.tif'' w0 =
      (emit WaitForUserDialog
        (emit (PixelClassification (expanduser zero_area_host MEMBRANE_MODEL_FILE) (path_join (os_sep zero_area_host) (getDirectory zero_area_host) ''a.tif''))
          (emit (ExistsCheck (expanduser zero_area_host MEMBRANE_MODEL_FILE))
            (emit (BioFormatsImporter (path_join (os_sep zero_area_host) (getDirectory zero_area_host) ''a.tif'')) w0))), Some ZeroDivisionError)"
      by (rule process_image_measure_fails)
         (simp_all add: zero_area_fields(1-6) demo_paths zero_area_survivors zero_area_measure)
  qed
  then show ?thesis by (simp add: zero_area_fields demo_paths emit_def w0_def)
qed

lemma empty_table_fields:
  "os_sep empty_table_host = CHR ''/''"
  "getDirectory empty_table_host = ''/data/''"
  "listdir empty_table_host d = [''a.tif'', ''notes.txt'', ''b.nd2'']"
  "path_exists empty_table_host p = True"
  "image_count empty_table_host p = 1"
  "rm_measure empty_table_host p rois = []"
  by (simp_all add: empty_table_host_def demo_host_def)

lemma empty_table_survivors:
  "surviving_rois empty_table_host ''/data/a.tif'' = [0, 2, 3]"
  "surviving_rois empty_table_host ''/data/b.nd2'' = [0, 2]"
  by (simp_all add: surviving_rois_def nucleus_filter_def empty_table_host_def demo_fields demo_stats
      delete_selected_def sum_nuclei_gray_def NUCLEUS_INTERSECTION_WITH_CELL_def upt_rec)

lemma empty_table_process:
  "snd (process_image empty_table_host d ad f w) = None"
proof (cases "surviving_rois empty_table_host (path_join (os_sep empty_table_host) d f) = []")
  case True
  then show ?thesis by (simp add: process_image_no_rois empty_table_fields)
next
  case False
  then show ?thesis
    by (simp add: process_image_measured[where res = "[]"] empty_table_fields measure_rows_empty)
qed

lemma empty_table_saved:
  "csv_files (fst (process_image empty_table_host ''/data/'' ''/data/analysis_v9'' ''a.tif'' w0))
     ''/data/analysis_v9/a.tif.csv'' = Some (results_to_csv [])"
  by (simp add: process_image_measured[where res = "[]"] empty_table_fields measure_rows_empty
      demo_paths empty_table_survivors csv_files_emit)

lemma no_rois_fields:
  "os_sep no_rois_host = CHR ''/''"
  "getDirectory no_rois_host = ''/data/''"
  "listdir no_rois_host d = [''a.tif'', ''notes.txt'', ''b.nd2'']"
  "expanduser no_rois_host p = ''/home/me'' @ drop 1 p"
  "path_exists no_rois_host p = True"
  "image_count no_rois_host p = 1"
  by (simp_all add: no_rois_host_def demo_host_def)

lemma no_rois_survivors: "surviving_rois no_rois_host p = []"
  by (simp add: surviving_rois_def nucleus_filter_def no_rois_host_def demo_host_def)

lemma no_rois_process:
  "process_image no_rois_host d ad f w =
        (emit (SaveImage (ad @ ''/'' @ f @ ''_masks.png''))
           (emit (SaveImage (ad @ ''/'' @ f @ ''.tif''))
              (emit WaitForUserDialog
                 (emit (PixelClassification (expanduser no_rois_host MEMBRANE_MODEL_FILE) (path_join (os_sep no_rois_host) d f))
                    (emit (ExistsCheck (expanduser no_rois_host MEMBRANE_MODEL_FILE))
                       (emit (BioFormatsImporter (path_join (os_sep no_rois_host) d f)) w))))), None)"
  by (rule process_image_no_rois) (simp_all add: no_rois_fields no_rois_survivors)

lemma no_rois_completes: "snd (snd (main no_rois_host w)) = None"
  unfolding main_result_iff
  by (rule image_loop_all_complete) (simp add: no_rois_process)

lemma no_rois_csv_kept:
  "csv_files (fst (image_loop no_rois_host d ad fs w)) = csv_files w"
  by (induction fs arbitrary: w) (simp_all add: no_rois_process csv_files_emit)

lemma no_rois_table:
  "fst (snd (main no_rois_host w)) =
     Some ((case csv_files w ''/data/analysis_v9/a.tif.csv'' of None \<Rightarrow> [] | Some csv \<Rightarrow> copy_rows csv) @
           (case csv_files w ''/data/analysis_v9/b.nd2.csv'' of None \<Rightarrow> [] | Some csv \<Rightarrow> copy_rows csv))"
proof -
  have c: "snd (image_loop no_rois_host (getDirectory no_rois_host)
     (path_join (os_sep no_rois_host) (getDirectory no_rois_host) ''analysis_v9'')
     (listdir no_rois_host (getDirectory no_rois_host)) w) = None"
    using no_rois_completes[of w] by (simp add: main_result_iff)
  show ?thesis
    unfolding main_completes[OF c] summary_loop_rows no_rois_csv_kept
    by (simp add: no_rois_fields demo_paths demo_names)
qed

lemma demo_world_csv:
  "csv_files demo_world ''/data/analysis_v9/a.tif.csv'' =
     Some (results_to_csv [demo_row_done, demo_row_done, demo_row_done])"
  "csv_files demo_world ''/data/analysis_v9/b.nd2.csv'' =
     Some (results_to_csv [demo_row_done, demo_row_done])"
  unfolding demo_world_def demo_image_loop by simp_all

lemma demo_main_csv: "csv_files (fst (main demo_host w0)) = csv_files demo_world"
proof -
  have c: "snd (image_loop demo_host (getDirectory demo_host)
     (path_join (os_sep demo_host) (getDirectory demo_host) ''analysis_v9'')
     (listdir demo_host (getDirectory demo_host)) w0) = None"
    by (simp only: demo_world_after_images demo_image_loop snd_conv)
  show ?thesis
    unfolding main_completes[OF c] demo_world_after_images demo_world_def
    by (simp add: csv_files_emit summary_loop_world del: image_loop.simps)
qed


lemma merged_components: "components adj26 (column_a @ column_b) = [column_a, column_b]"
  by (simp add: column_a_def column_b_def grow_stop grow_more adj26_def near_def)

lemma single_components: "components adj26 (column_a @ speck) = [column_a, speck]"
  by (simp add: column_a_def speck_def grow_stop grow_more adj26_def near_def)

lemma speck_components: "components adj26 speck = [speck]"
  by (simp add: speck_def grow_stop grow_more adj26_def near_def)

lemma column_lengths: "length column_a = 10" "length column_b = 10" "length speck = 5"
  by (simp_all add: column_a_def column_b_def speck_def)

lemma column_footprints:
  "footprint column_a = [(2, 2), (3, 2)]"
  "footprint column_b = [(3, 2), (4, 2)]"
  "footprint (column_a @ column_b) = [(2, 2), (3, 2), (4, 2)]"
  by (simp_all add: footprint_def column_a_def column_b_def)

lemma merged_kept:
  "objects_counter_3d MICROGLIA_MIN_SIZE_3D 9999999 (st_foreground merged_stack) = [column_a, column_b]"
  by (simp add: objects_counter_3d_def merged_stack_def merged_components column_lengths MICROGLIA_MIN_SIZE_3D_def)

lemma single_kept:
  "objects_counter_3d MICROGLIA_MIN_SIZE_3D 9999999 (st_foreground single_stack) = [column_a]"
  by (simp add: objects_counter_3d_def single_stack_def single_components column_lengths MICROGLIA_MIN_SIZE_3D_def)

lemma merged_particles: "components adj8 [(2, 2), (3, 2), (4, 2)] = [[(2, 2), (3, 2), (4, 2)]]"
  by (simp add: grow_stop grow_more adj8_def near_def)

lemma single_particles: "components adj8 [(2, 2), (3, 2)] = [[(2, 2), (3, 2)]]"
  by (simp add: grow_stop grow_more adj8_def near_def)

lemma column_masks:
  "z_project_mask [column_a, column_b] = [(2, 2), (3, 2), (4, 2)]"
  "z_project_mask [column_a] = [(2, 2), (3, 2)]"
  by (simp_all add: z_project_mask_def column_footprints)

lemma merged_candidates: "candidate_rois merged_stack = [[(2, 2), (3, 2), (4, 2)]]"
  unfolding candidate_rois_def merged_kept column_masks analyze_particles_def merged_particles
  by (simp add: merged_stack_def calibrated_area_def touches_edge_def MICROGLIA_MIN_SIZE_def
      MICROGLIA_MAX_SIZE_def)

lemma single_candidates: "candidate_rois single_stack = [[(2, 2), (3, 2)]]"
  unfolding candidate_rois_def single_kept column_masks analyze_particles_def single_particles
  by (simp add: single_stack_def calibrated_area_def touches_edge_def MICROGLIA_MIN_SIZE_def
      MICROGLIA_MAX_SIZE_def)

section \<open>The claims\<close>

subsection \<open>C1: the shape index RI and its assertion\<close>



subsection \<open>C2: a region of area zero\<close>

text \<open>
  C2, as amended. A row whose area is 0 is not skipped: the loop body raises
  ZeroDivisionError at line 264. The measurement of a table ends with that error when the
  rows before it measure without error, and with some error in every case. At the image
  whose measurement fails the run ends with the error, right after the operator's dialog:
  no table is saved for the image, no later file is processed, no folder summary is
  built.
\<close>

theorem zero_area_row_raises:
  "(Area r = 0 \<longrightarrow> measure_row crop_of trees_of n_rows rois row r = Inl ZeroDivisionError)
   \<and> (k < length results \<and> Area (results ! k) = 0 \<and>
        (\<forall>j<k. \<exists>r'. measure_row crop_of trees_of (length results) rois j (results ! j) = Inr r') \<longrightarrow>
        measure_rows crop_of trees_of rois results = Inl ZeroDivisionError)
   \<and> (k < length results \<and> Area (results ! k) = 0 \<longrightarrow>
        (\<exists>e. measure_rows crop_of trees_of rois results = Inl e))
   \<and> (listdir h (getDirectory h) = pre @ f # post \<and> is_image_name f \<and>
        image_loop h (getDirectory h) (path_join (os_sep h) (getDirectory h) ''analysis_v9'') pre w
          = (w1, None) \<and>
        image_count h (path_join (os_sep h) (getDirectory h) f) \<noteq> 0 \<and>
        path_exists h (expanduser h MEMBRANE_MODEL_FILE) \<and>
        surviving_rois h (path_join (os_sep h) (getDirectory h) f) \<noteq> [] \<and>
        measure_rows (crop_pixels h (path_join (os_sep h) (getDirectory h) f))
          (skeleton_trees h (path_join (os_sep h) (getDirectory h) f))
          (surviving_rois h (path_join (os_sep h) (getDirectory h) f))
          (rm_measure h (path_join (os_sep h) (getDirectory h) f)
             (surviving_rois h (path_join (os_sep h) (getDirectory h) f))) = Inl e \<longrightarrow>
        main h w =
          (emit WaitForUserDialog
             (emit (PixelClassification (expanduser h MEMBRANE_MODEL_FILE)
                      (path_join (os_sep h) (getDirectory h) f))
                (emit (ExistsCheck (expanduser h MEMBRANE_MODEL_FILE))
                   (emit (BioFormatsImporter (path_join (os_sep h) (getDirectory h) f)) w1))),
           None, Some e))"
proof (intro conjI impI)
  assume "Area r = 0"
  then show "measure_row crop_of trees_of n_rows rois row r = Inl ZeroDivisionError"
    by (rule measure_row_zero_area)
next
  assume a: "k < length results \<and> Area (results ! k) = 0 \<and>
        (\<forall>j<k. \<exists>r'. measure_row crop_of trees_of (length results) rois j (results ! j) = Inr r')"
  have "measure_loop crop_of trees_of (length results) rois 0 results = Inl ZeroDivisionError"
  proof (rule measure_loop_stops[of k])
    show "k < length results" using a by simp
    show "\<forall>j<k. \<exists>r'. measure_row crop_of trees_of (length results) rois (0 + j) (results ! j) = Inr r'"
      using a by simp
    show "measure_row crop_of trees_of (length results) rois (0 + k) (results ! k) = Inl ZeroDivisionError"
      using a by (simp add: measure_row_zero_area)
  qed
  then show "measure_rows crop_of trees_of rois results = Inl ZeroDivisionError"
    by (simp add: measure_rows_def)
next
  assume "k < length results \<and> Area (results ! k) = 0"
  then show "\<exists>e. measure_rows crop_of trees_of rois results = Inl e"
    using measure_rows_zero_area by blast
next
  let ?d = "getDirectory h"
  let ?ad = "path_join (os_sep h) (getDirectory h) ''analysis_v9''"
  assume a: "listdir h ?d = pre @ f # post \<and> is_image_name f \<and>
        image_loop h ?d ?ad pre w = (w1, None) \<and>
        image_count h (path_join (os_sep h) ?d f) \<noteq> 0 \<and>
        path_exists h (expanduser h MEMBRANE_MODEL_FILE) \<and>
        surviving_rois h (path_join (os_sep h) ?d f) \<noteq> [] \<and>
        measure_rows (crop_pixels h (path_join (os_sep h) ?d f))
          (skeleton_trees h (path_join (os_sep h) ?d f))
          (surviving_rois h (path_join (os_sep h) ?d f))
          (rm_measure h (path_join (os_sep h) ?d f)
             (surviving_rois h (path_join (os_sep h) ?d f))) = Inl e"
  show "main h w =
          (emit WaitForUserDialog
             (emit (PixelClassification (expanduser h MEMBRANE_MODEL_FILE) (path_join (os_sep h) ?d f))
                (emit (ExistsCheck (expanduser h MEMBRANE_MODEL_FILE))
                   (emit (BioFormatsImporter (path_join (os_sep h) ?d f)) w1))),
           None, Some e)"
  proof (rule main_aborts_at)
    show "listdir h ?d = pre @ f # post" using a by simp
    show "is_image_name f" using a by simp
    show "image_loop h ?d ?ad pre w = (w1, None)" using a by simp
    show "process_image h ?d ?ad f w1 =
      (emit WaitForUserDialog
             (emit (PixelClassification (expanduser h MEMBRANE_MODEL_FILE) (path_join (os_sep h) ?d f))
                (emit (ExistsCheck (expanduser h MEMBRANE_MODEL_FILE))
                   (emit (BioFormatsImporter (path_join (os_sep h) ?d f)) w1))), Some e)"
      using a by (intro process_image_measure_fails) simp_all
  qed
qed

theorem zero_area_row_raises_witness:
  "measure_row (\<lambda>roi. [0, 255, 0]) (\<lambda>roi. demo_trees) 1 [0::nat] 0 (demo_row\<lparr>Area := 0, Perim := 0\<rparr>)
     = Inl ZeroDivisionError
   \<and> measure_rows (\<lambda>roi. [0, 255, 0]) (\<lambda>roi. demo_trees) [0::nat] [demo_row\<lparr>Area := 0, Perim := 0\<rparr>]
     = Inl ZeroDivisionError
   \<and> main zero_area_host w0 =
       (emit WaitForUserDialog
          (emit (PixelClassification (expanduser zero_area_host MEMBRANE_MODEL_FILE) ''/data/a.tif'')
             (emit (ExistsCheck (expanduser zero_area_host MEMBRANE_MODEL_FILE))
                (emit (BioFormatsImporter ''/data/a.tif'') w0))),
        None, Some ZeroDivisionError)"
  using zero_area_row_raises[where r = "demo_row\<lparr>Area := 0, Perim := 0\<rparr>"
          and crop_of = "\<lambda>roi. [0, 255, 0]" and trees_of = "\<lambda>roi. demo_trees"
          and n_rows = 1 and rois = "[0::nat]" and row = 0 and k = 0
          and results = "[demo_row\<lparr>Area := 0, Perim := 0\<rparr>]"
          and h = zero_area_host and pre = "[]" and f = "''a.tif''"
          and post = "[''notes.txt'', ''b.nd2'']" and w = w0 and ?w1.0 = w0
          and e = ZeroDivisionError]
    zero_area_survivors zero_area_measure[of "[0, 2, 3]"]
  by (simp add: zero_area_fields(1-6) demo_names demo_paths demo_row_def)

text \<open>
  C2 as stated fails: with three surviving regions all measured with area 0, the
  measurement raises ZeroDivisionError and the run ends with it, no CSV file written.
\<close>

theorem zero_area_counterexample:
  "surviving_rois zero_area_host ''/data/a.tif'' = [0, 2, 3]
   \<and> map Area (rm_measure zero_area_host ''/data/a.tif'' [0, 2, 3]) = [0, 0, 0]
   \<and> measure_rows (crop_pixels zero_area_host ''/data/a.tif'') (skeleton_trees zero_area_host ''/data/a.tif'')
        [0, 2, 3] (rm_measure zero_area_host ''/data/a.tif'' [0, 2, 3]) = Inl ZeroDivisionError
   \<and> snd (main zero_area_host w0) = (None, Some ZeroDivisionError)
   \<and> csv_files (fst (main zero_area_host w0)) = (\<lambda>p. None)"
  using zero_area_survivors zero_area_measure[of "[0, 2, 3]"] zero_area_main
  by (simp add: zero_area_fields(7) demo_row_def)

subsection \<open>C3: the model check\<close>

text \<open>
  C3, as amended. The existence of the classifier model file is checked once for every
  image file that opens: one image adds one \<open>ExistsCheck\<close> when it opens and none when
  it does not, and a run that completes over n image files has made n checks. The check
  comes before the image's classification. If the file does not exist, the image that
  opens fails at the check with an AssertionError carrying the path, nothing is
  classified anywhere in the run, and the run completes only when the folder holds no
  image file; otherwise it ends in that AssertionError, or in the \<open>exit()\<close> of an image
  that did not open.
\<close>

theorem model_checked_per_image:
  "(snd (snd (main h w)) = None \<longrightarrow>
      n_checks (fst (main h w)) =
        n_checks w + length (filter is_image_name (listdir h (getDirectory h))))
   \<and> n_checks (fst (process_image h d ad f w)) =
        n_checks w + (if image_count h (path_join (os_sep h) d f) = 0 then 0 else 1)
   \<and> (image_count h (path_join (os_sep h) d f) \<noteq> 0 \<and>
        \<not> path_exists h (expanduser h MEMBRANE_MODEL_FILE) \<longrightarrow>
        process_image h d ad f w =
          (emit (ExistsCheck (expanduser h MEMBRANE_MODEL_FILE))
             (emit (BioFormatsImporter (path_join (os_sep h) d f)) w),
           Some (AssertionError (PathArg (expanduser h MEMBRANE_MODEL_FILE)))))
   \<and> (\<not> path_exists h (expanduser h MEMBRANE_MODEL_FILE) \<longrightarrow>
        n_classifications (fst (main h w)) = n_classifications w \<and>
        (snd (snd (main h w)) = None \<longleftrightarrow> filter is_image_name (listdir h (getDirectory h)) = []) \<and>
        (\<forall>e. snd (snd (main h w)) = Some e \<longrightarrow>
           e = SystemExit \<or> e = AssertionError (PathArg (expanduser h MEMBRANE_MODEL_FILE))))"
proof (intro conjI impI allI)
  assume "snd (snd (main h w)) = None"
  then have "snd (image_loop h (getDirectory h) (path_join (os_sep h) (getDirectory h) ''analysis_v9'')
          (listdir h (getDirectory h)) w) = None"
    by (simp add: main_result_iff)
  from image_loop_checks[OF this] show "n_checks (fst (main h w)) =
        n_checks w + length (filter is_image_name (listdir h (getDirectory h)))"
    by (simp add: main_world_counts)
next
  show "n_checks (fst (process_image h d ad f w)) =
        n_checks w + (if image_count h (path_join (os_sep h) d f) = 0 then 0 else 1)"
    by (rule process_image_checks)
next
  assume "image_count h (path_join (os_sep h) d f) \<noteq> 0 \<and>
        \<not> path_exists h (expanduser h MEMBRANE_MODEL_FILE)"
  then show "process_image h d ad f w =
          (emit (ExistsCheck (expanduser h MEMBRANE_MODEL_FILE))
             (emit (BioFormatsImporter (path_join (os_sep h) d f)) w),
           Some (AssertionError (PathArg (expanduser h MEMBRANE_MODEL_FILE))))"
    by (simp add: process_image_no_model)
next
  assume nm: "\<not> path_exists h (expanduser h MEMBRANE_MODEL_FILE)"
  from image_loop_no_model[OF nm]
  show "n_classifications (fst (main h w)) = n_classifications w"
    by (simp add: main_world_counts)
  from image_loop_no_model[OF nm]
  show "snd (snd (main h w)) = None \<longleftrightarrow> filter is_image_name (listdir h (getDirectory h)) = []"
    by (simp add: main_result_iff)
  fix e assume "snd (snd (main h w)) = Some e"
  then show "e = SystemExit \<or> e = AssertionError (PathArg (expanduser h MEMBRANE_MODEL_FILE))"
    using image_loop_no_model_error[OF nm] by (simp add: main_result_iff)
qed

theorem model_checked_per_image_witness:
  "n_checks (fst (main demo_host w0)) = 2
   \<and> process_image no_model_host ''/data/'' ''/data/analysis_v9'' ''a.tif'' w0 =
        (emit (ExistsCheck (expanduser no_model_host MEMBRANE_MODEL_FILE))
           (emit (BioFormatsImporter ''/data/a.tif'') w0),
         Some (AssertionError (PathArg (expanduser no_model_host MEMBRANE_MODEL_FILE))))
   \<and> n_classifications (fst (main no_model_host w0)) = 0
   \<and> snd (snd (main no_model_host w0)) \<noteq> None"
  using model_checked_per_image[of demo_host w0 "''/data/''" "''/data/analysis_v9''" "''a.tif''"]
    model_checked_per_image[of no_model_host w0 "''/data/''" "''/data/analysis_v9''" "''a.tif''"]
    demo_main_completes
  by (simp add: demo_fields no_model_fields demo_names demo_paths n_checks_def n_classifications_def w0_def)

text \<open>
  C3 as stated fails: the example run completes with two checks, one per image; and a
  run over a folder without image files completes although the model file is missing,
  with no check made.
\<close>

theorem model_check_counterexample:
  "snd (snd (main demo_host w0)) = None \<and> n_checks (fst (main demo_host w0)) = 2
   \<and> \<not> path_exists no_images_host (expanduser no_images_host MEMBRANE_MODEL_FILE)
   \<and> snd (snd (main no_images_host w0)) = None \<and> n_checks (fst (main no_images_host w0)) = 0"
proof -
  have "snd (snd (main no_images_host w0)) = None"
    by (simp add: main_result_iff no_images_fields demo_names)
  moreover have "n_checks (fst (main no_images_host w0)) = 0"
    unfolding main_world_counts[THEN conjunct1]
    by (simp add: no_images_fields demo_names n_checks_def w0_def)
  ultimately show ?thesis
    using demo_main_completes demo_main_checks by (simp add: no_images_fields)
qed

subsection \<open>C4: rows and regions in lockstep\<close>

text \<open>
  C4 at the input where the code departs from it: three regions survive, the table after
  Measure is empty. The loop over the rows has no iteration, the assertion of line 267 is
  never evaluated, an empty table is saved for the image and the run completes.
  (\<open>measure_rows_lockstep\<close> and \<open>measure_rows_mismatch_fails\<close> above cover a table with
  at least one row.)
\<close>

theorem empty_table_escapes_row_check:
  "surviving_rois empty_table_host ''/data/a.tif'' = [0, 2, 3]
   \<and> rm_measure empty_table_host ''/data/a.tif'' [0, 2, 3] = []
   \<and> measure_rows (crop_pixels empty_table_host ''/data/a.tif'') (skeleton_trees empty_table_host ''/data/a.tif'')
        [0, 2, 3] (rm_measure empty_table_host ''/data/a.tif'' [0, 2, 3]) = Inr []
   \<and> csv_files (fst (process_image empty_table_host ''/data/'' ''/data/analysis_v9'' ''a.tif'' w0))
        ''/data/analysis_v9/a.tif.csv'' = Some (results_to_csv [])
   \<and> snd (snd (main empty_table_host w0)) = None"
proof -
  have "snd (snd (main empty_table_host w0)) = None"
    unfolding main_result_iff
    by (rule image_loop_all_complete) (rule empty_table_process)
  then show ?thesis
    using empty_table_survivors(1) empty_table_saved
    by (simp add: empty_table_fields measure_rows_empty)
qed

subsection \<open>C5: cable length\<close>

text \<open>
  C5. When the crop has a foreground pixel and its skeleton has more than one tree,
  \<open>get_cable_length\<close> returns the sum of the edge lengths of one tree only: a tree whose
  \<open>list()\<close> is longest, and the first such tree in the order of \<open>getTrees()\<close>. When the
  crop has no foreground pixel the result is 0, returned as a value and not raised.
\<close>

theorem cable_length_of_largest_tree:
  "(1 < length trees \<and> (\<exists>p\<in>set cropped. 0 < p) \<longrightarrow>
      (\<exists>i<length trees.
          get_cable_length cropped trees = Inr (sum_list (edge_lengths (trees ! i))) \<and>
          (\<forall>j<length trees. length (tlist (trees ! j)) \<le> length (tlist (trees ! i))) \<and>
          (\<forall>j<i. length (tlist (trees ! j)) < length (tlist (trees ! i)))))
   \<and> ((\<forall>p\<in>set cropped. p = 0) \<longrightarrow> get_cable_length cropped trees = Inr 0)"
proof (intro conjI impI)
  assume "1 < length trees \<and> (\<exists>p\<in>set cropped. 0 < p)"
  then have "1 < length trees" "0 < raw_max cropped" by (simp_all add: raw_max_pos_iff)
  from cable_length_largest[OF this] show "\<exists>i<length trees.
          get_cable_length cropped trees = Inr (sum_list (edge_lengths (trees ! i))) \<and>
          (\<forall>j<length trees. length (tlist (trees ! j)) \<le> length (tlist (trees ! i))) \<and>
          (\<forall>j<i. length (tlist (trees ! j)) < length (tlist (trees ! i)))"
    by (simp add: cable_metric_def)
next
  assume "\<forall>p\<in>set cropped. p = 0"
  then show "get_cable_length cropped trees = Inr 0" by (rule cable_length_background)
qed

theorem cable_length_of_largest_tree_witness:
  "get_cable_length [0, 255, 0] demo_trees = Inr (7 / 2) \<and>
   get_cable_length [0, 0, 0] demo_trees = Inr 0"
  using cable_length_of_largest_tree[of demo_trees "[0, 255, 0]"]
        cable_length_of_largest_tree[of demo_trees "[0, 0, 0]"]
  by (simp add: get_cable_length_def raw_max_def demo_trees_def bind_e_def cable_metric_def)

subsection \<open>C6: from 3D components to 2D candidates\<close>

text \<open>
  C6, as amended, on the modelled plugins. Every pixel of every 2D candidate lies under a
  3D component of at least 10 voxels, and a stack whose components are all below the
  floor yields no candidate: a component below the floor is dropped before the
  projection. A surviving 3D component whose projection neither overlaps nor touches the
  projection of another surviving component is met among the candidates exactly once when
  its projected calibrated area lies within [20, 500] and it does not touch the image
  border, and not at all otherwise.
\<close>

theorem isolated_object_one_candidate:
  "(\<forall>region\<in>set (candidate_rois s). \<forall>p\<in>set region.
       \<exists>obj\<in>set (components adj26 (st_foreground s)).
          MICROGLIA_MIN_SIZE_3D \<le> length obj \<and> p \<in> set (footprint obj))
   \<and> ((\<forall>obj\<in>set (components adj26 (st_foreground s)). length obj < MICROGLIA_MIN_SIZE_3D) \<longrightarrow>
        candidate_rois s = [])
   \<and> (obj \<in> set (objects_counter_3d MICROGLIA_MIN_SIZE_3D 9999999 (st_foreground s)) \<and>
        (\<forall>other\<in>set (objects_counter_3d MICROGLIA_MIN_SIZE_3D 9999999 (st_foreground s)).
            other \<noteq> obj \<longrightarrow> (\<forall>a\<in>set (footprint obj). \<forall>b\<in>set (footprint other). \<not> adj8 a b)) \<longrightarrow>
        length (filter (\<lambda>region. set region = set (footprint obj)) (candidate_rois s)) =
          (if MICROGLIA_MIN_SIZE \<le> calibrated_area (pixel_area s) (footprint obj) \<and>
              calibrated_area (pixel_area s) (footprint obj) \<le> MICROGLIA_MAX_SIZE \<and>
              \<not> touches_edge (st_width s) (st_height s) (footprint obj)
           then 1 else 0))
   \<and> MICROGLIA_MIN_SIZE_3D = 10 \<and> MICROGLIA_MIN_SIZE = 20 \<and> MICROGLIA_MAX_SIZE = 500"
proof (intro conjI impI ballI)
  fix region p assume "region \<in> set (candidate_rois s)" "p \<in> set region"
  then show "\<exists>obj\<in>set (components adj26 (st_foreground s)).
          MICROGLIA_MIN_SIZE_3D \<le> length obj \<and> p \<in> set (footprint obj)"
    by (rule candidate_pixels)
next
  assume "\<forall>obj\<in>set (components adj26 (st_foreground s)). length obj < MICROGLIA_MIN_SIZE_3D"
  then show "candidate_rois s = []" by (rule candidates_below_floor)
next
  assume a: "obj \<in> set (objects_counter_3d MICROGLIA_MIN_SIZE_3D 9999999 (st_foreground s)) \<and>
        (\<forall>other\<in>set (objects_counter_3d MICROGLIA_MIN_SIZE_3D 9999999 (st_foreground s)).
            other \<noteq> obj \<longrightarrow> (\<forall>a\<in>set (footprint obj). \<forall>b\<in>set (footprint other). \<not> adj8 a b))"
  show "length (filter (\<lambda>region. set region = set (footprint obj)) (candidate_rois s)) =
          (if MICROGLIA_MIN_SIZE \<le> calibrated_area (pixel_area s) (footprint obj) \<and>
              calibrated_area (pixel_area s) (footprint obj) \<le> MICROGLIA_MAX_SIZE \<and>
              \<not> touches_edge (st_width s) (st_height s) (footprint obj)
           then 1 else 0)"
    by (rule isolated_object_once) (use a in blast)+
next
  show "MICROGLIA_MIN_SIZE_3D = 10" by (simp add: MICROGLIA_MIN_SIZE_3D_def)
  show "MICROGLIA_MIN_SIZE = 20" by (simp add: MICROGLIA_MIN_SIZE_def)
  show "MICROGLIA_MAX_SIZE = 500" by (simp add: MICROGLIA_MAX_SIZE_def)
qed

theorem isolated_object_one_candidate_witness:
  "candidate_rois single_stack = [[(2, 2), (3, 2)]]
   \<and> length (filter (\<lambda>region. set region = set (footprint column_a)) (candidate_rois single_stack)) = 1
   \<and> candidate_rois speck_stack = []"
proof -
  note t = isolated_object_one_candidate[where s = single_stack and obj = column_a]
  have h: "column_a \<in> set (objects_counter_3d MICROGLIA_MIN_SIZE_3D 9999999 (st_foreground single_stack)) \<and>
        (\<forall>other\<in>set (objects_counter_3d MICROGLIA_MIN_SIZE_3D 9999999 (st_foreground single_stack)).
            other \<noteq> column_a \<longrightarrow> (\<forall>a\<in>set (footprint column_a). \<forall>b\<in>set (footprint other). \<not> adj8 a b))"
    by (simp add: single_kept)
  have band: "MICROGLIA_MIN_SIZE \<le> calibrated_area (pixel_area single_stack) (footprint column_a) \<and>
              calibrated_area (pixel_area single_stack) (footprint column_a) \<le> MICROGLIA_MAX_SIZE \<and>
              \<not> touches_edge (st_width single_stack) (st_height single_stack) (footprint column_a)"
    by (simp add: column_footprints calibrated_area_def touches_edge_def single_stack_def
        MICROGLIA_MIN_SIZE_def MICROGLIA_MAX_SIZE_def)
  from t h band
  have 1: "length (filter (\<lambda>region. set region = set (footprint column_a)) (candidate_rois single_stack)) = 1"
    by simp
  have low: "\<forall>obj\<in>set (components adj26 (st_foreground speck_stack)). length obj < MICROGLIA_MIN_SIZE_3D"
    by (simp add: speck_stack_def speck_components column_lengths MICROGLIA_MIN_SIZE_3D_def)
  from isolated_object_one_candidate[where s = speck_stack] low
  have 2: "candidate_rois speck_stack = []" by blast
  from 1 2 single_candidates show ?thesis by simp
qed

text \<open>
  C6 as stated fails where projections meet: two surviving components, ten voxels each,
  apart in z, with projected areas of 14 each, outside the band. Their projections
  overlap, the binarised projection is one region of area 21, and that region is a
  candidate.
\<close>

theorem merged_projections_counterexample:
  "objects_counter_3d MICROGLIA_MIN_SIZE_3D 9999999 (st_foreground merged_stack) = [column_a, column_b]
   \<and> calibrated_area (pixel_area merged_stack) (footprint column_a) = 14
   \<and> calibrated_area (pixel_area merged_stack) (footprint column_b) = 14
   \<and> candidate_rois merged_stack = [[(2, 2), (3, 2), (4, 2)]]
   \<and> calibrated_area (pixel_area merged_stack) [(2, 2), (3, 2), (4, 2)] = 21"
  using merged_kept merged_candidates
  by (simp add: column_footprints calibrated_area_def merged_stack_def)

subsection \<open>C7: the nucleus filter\<close>



subsection \<open>C8: the folder table\<close>

text \<open>
  C8, as amended. The folder table is the concatenation, in listing order, of the rows
  of every per-image CSV file present for an image name; each row keeps the label of its
  CSV row unchanged. Two tables of 3 and 2 rows give exactly 5 rows, labelled as in the
  two files. A run that completes hands this table to Summarize once and then shows the
  final message. The script puts no file name into a label.
\<close>

theorem folder_summary_concatenates:
  "snd (summary_loop h ad fs w res) =
     res @ concat (map (\<lambda>f. case csv_files w (csv_file_of (os_sep h) ad f) of
                               None \<Rightarrow> [] | Some csv \<Rightarrow> copy_rows csv)
                    (filter is_image_name fs))
   \<and> length (copy_rows csv) = length (trows csv)
   \<and> map fst (copy_rows csv) = map fst (trows csv)
   \<and> (is_image_name f1 \<and> is_image_name f2 \<and>
        csv_files w (csv_file_of (os_sep h) ad f1) = Some t1 \<and>
        csv_files w (csv_file_of (os_sep h) ad f2) = Some t2 \<and>
        length (trows t1) = 3 \<and> length (trows t2) = 2 \<longrightarrow>
        length (snd (summary_loop h ad [f1, f2] w [])) = 5 \<and>
        map fst (snd (summary_loop h ad [f1, f2] w [])) = map fst (trows t1) @ map fst (trows t2))
   \<and> (snd (snd (main h w)) = None \<longrightarrow>
        main h w =
          (case summary_loop h (path_join (os_sep h) (getDirectory h) ''analysis_v9'')
                  (listdir h (getDirectory h))
                  (fst (image_loop h (getDirectory h)
                          (path_join (os_sep h) (getDirectory h) ''analysis_v9'')
                          (listdir h (getDirectory h)) w)) [] of
             (w2, results) \<Rightarrow>
               (emit (ShowMessage ''Finshed processing folder.'') (emit Summarize w2),
                Some results, None)))"
proof (intro conjI impI)
  show "snd (summary_loop h ad fs w res) =
     res @ concat (map (\<lambda>f. case csv_files w (csv_file_of (os_sep h) ad f) of
                               None \<Rightarrow> [] | Some csv \<Rightarrow> copy_rows csv)
                    (filter is_image_name fs))"
    by (rule summary_loop_rows)
  show "length (copy_rows csv) = length (trows csv)" using copy_rows_labels by blast
  show "map fst (copy_rows csv) = map fst (trows csv)" using copy_rows_labels by blast
next
  assume a: "is_image_name f1 \<and> is_image_name f2 \<and>
        csv_files w (csv_file_of (os_sep h) ad f1) = Some t1 \<and>
        csv_files w (csv_file_of (os_sep h) ad f2) = Some t2 \<and>
        length (trows t1) = 3 \<and> length (trows t2) = 2"
  have rows: "snd (summary_loop h ad [f1, f2] w []) = copy_rows t1 @ copy_rows t2"
    unfolding summary_loop_rows using a by simp
  show "length (snd (summary_loop h ad [f1, f2] w [])) = 5"
    unfolding rows using a copy_rows_labels[of t1] copy_rows_labels[of t2] by simp
  show "map fst (snd (summary_loop h ad [f1, f2] w [])) = map fst (trows t1) @ map fst (trows t2)"
    unfolding rows using copy_rows_labels[of t1] copy_rows_labels[of t2] by simp
next
  assume "snd (snd (main h w)) = None"
  then have c: "snd (image_loop h (getDirectory h) (path_join (os_sep h) (getDirectory h) ''analysis_v9'')
          (listdir h (getDirectory h)) w) = None"
    by (simp add: main_result_iff)
  show "main h w =
          (case summary_loop h (path_join (os_sep h) (getDirectory h) ''analysis_v9'')
                  (listdir h (getDirectory h))
                  (fst (image_loop h (getDirectory h)
                          (path_join (os_sep h) (getDirectory h) ''analysis_v9'')
                          (listdir h (getDirectory h)) w)) [] of
             (w2, results) \<Rightarrow>
               (emit (ShowMessage ''Finshed processing folder.'') (emit Summarize w2),
                Some results, None))"
    unfolding main_completes[OF c] by (simp split: prod.splits)
qed

theorem folder_summary_concatenates_witness:
  "length (snd (summary_loop demo_host ''/data/analysis_v9'' [''a.tif'', ''b.nd2''] demo_world [])) = 5
   \<and> map fst (snd (summary_loop demo_host ''/data/analysis_v9'' [''a.tif'', ''b.nd2''] demo_world [])) =
       [''microglia_mask:0001-0005'', ''microglia_mask:0001-0005'', ''microglia_mask:0001-0005'',
        ''microglia_mask:0001-0005'', ''microglia_mask:0001-0005'']
   \<and> events (fst (main demo_host w0)) \<noteq> []"
proof -
  note t = folder_summary_concatenates[where h = demo_host and ad = "''/data/analysis_v9''"
      and w = demo_world and ?f1.0 = "''a.tif''" and ?f2.0 = "''b.nd2''"
      and ?t1.0 = "results_to_csv [demo_row_done, demo_row_done, demo_row_done]"
      and ?t2.0 = "results_to_csv [demo_row_done, demo_row_done]"]
  have h: "is_image_name ''a.tif'' \<and> is_image_name ''b.nd2'' \<and>
        csv_files demo_world (csv_file_of (os_sep demo_host) ''/data/analysis_v9'' ''a.tif'') =
          Some (results_to_csv [demo_row_done, demo_row_done, demo_row_done]) \<and>
        csv_files demo_world (csv_file_of (os_sep demo_host) ''/data/analysis_v9'' ''b.nd2'') =
          Some (results_to_csv [demo_row_done, demo_row_done]) \<and>
        length (trows (results_to_csv [demo_row_done, demo_row_done, demo_row_done])) = 3 \<and>
        length (trows (results_to_csv [demo_row_done, demo_row_done])) = 2"
    by (simp add: demo_names demo_fields demo_paths demo_world_csv results_to_csv_def)
  from t h have
    "length (snd (summary_loop demo_host ''/data/analysis_v9'' [''a.tif'', ''b.nd2''] demo_world [])) = 5"
    "map fst (snd (summary_loop demo_host ''/data/analysis_v9'' [''a.tif'', ''b.nd2''] demo_world [])) =
       map fst (trows (results_to_csv [demo_row_done, demo_row_done, demo_row_done])) @
       map fst (trows (results_to_csv [demo_row_done, demo_row_done]))"
    by blast+
  moreover have "events (fst (main demo_host w0)) \<noteq> []"
    using folder_summary_concatenates[where h = demo_host and w = w0] demo_main_completes
    by (auto simp: emit_def split: prod.splits)
  ultimately show ?thesis
    by (simp add: results_to_csv_def demo_row_done_def demo_row_def)
qed

text \<open>
  C8 as stated fails: in the example run the per-image tables of the two files hold rows
  with the same label, and the five rows of the folder table are equal, whichever file
  they come from.
\<close>

theorem folder_labels_counterexample:
  "fst (snd (main demo_host w0)) =
     Some [demo_summary_row, demo_summary_row, demo_summary_row, demo_summary_row, demo_summary_row]
   \<and> csv_files (fst (main demo_host w0)) ''/data/analysis_v9/a.tif.csv'' =
       Some (results_to_csv [demo_row_done, demo_row_done, demo_row_done])
   \<and> csv_files (fst (main demo_host w0)) ''/data/analysis_v9/b.nd2.csv'' =
       Some (results_to_csv [demo_row_done, demo_row_done])
   \<and> fst demo_summary_row = ''microglia_mask:0001-0005''"
  using demo_main_table demo_world_csv
  by (simp add: demo_main_csv demo_summary_row_def)

subsection \<open>C9: an image that cannot be opened\<close>

text \<open>
  C9. An image file (a name ending in \<open>.nd2\<close> or \<open>.tif\<close>) for which the image count is
  zero after the importer makes \<open>process_image\<close> show the message
  "Could not open image" with the path and raise SystemExit. When the run reaches such a
  file, these are its last two steps: no later file of the listing is touched and no
  folder summary is built. A listing that holds such a file never lets the run complete.
\<close>

theorem unopened_image_aborts_run:
  "(image_count h (path_join (os_sep h) d f) = 0 \<longrightarrow>
      process_image h d ad f w =
        (emit (ShowMessage (''Could not open image '' @ path_join (os_sep h) d f))
           (emit (BioFormatsImporter (path_join (os_sep h) d f)) w), Some SystemExit))
   \<and> (listdir h (getDirectory h) = pre @ f # post \<and> is_image_name f \<and>
        image_count h (path_join (os_sep h) (getDirectory h) f) = 0 \<and>
        image_loop h (getDirectory h) (path_join (os_sep h) (getDirectory h) ''analysis_v9'') pre w
          = (w1, None) \<longrightarrow>
        main h w =
          (emit (ShowMessage (''Could not open image '' @ path_join (os_sep h) (getDirectory h) f))
             (emit (BioFormatsImporter (path_join (os_sep h) (getDirectory h) f)) w1),
           None, Some SystemExit))
   \<and> ((\<exists>f\<in>set (listdir h (getDirectory h)).
          is_image_name f \<and> image_count h (path_join (os_sep h) (getDirectory h) f) = 0) \<longrightarrow>
        (\<exists>e. snd (main h w) = (None, Some e)))"
proof (intro conjI impI)
  assume "image_count h (path_join (os_sep h) d f) = 0"
  then show "process_image h d ad f w =
        (emit (ShowMessage (''Could not open image '' @ path_join (os_sep h) d f))
           (emit (BioFormatsImporter (path_join (os_sep h) d f)) w), Some SystemExit)"
    by (rule process_image_unopened)
next
  assume a: "listdir h (getDirectory h) = pre @ f # post \<and> is_image_name f \<and>
        image_count h (path_join (os_sep h) (getDirectory h) f) = 0 \<and>
        image_loop h (getDirectory h) (path_join (os_sep h) (getDirectory h) ''analysis_v9'') pre w
          = (w1, None)"
  show "main h w =
          (emit (ShowMessage (''Could not open image '' @ path_join (os_sep h) (getDirectory h) f))
             (emit (BioFormatsImporter (path_join (os_sep h) (getDirectory h) f)) w1),
           None, Some SystemExit)"
  proof (rule main_aborts_at)
    show "listdir h (getDirectory h) = pre @ f # post" using a by simp
    show "is_image_name f" using a by simp
    show "image_loop h (getDirectory h) (path_join (os_sep h) (getDirectory h) ''analysis_v9'') pre w
          = (w1, None)" using a by simp
    show "process_image h (getDirectory h) (path_join (os_sep h) (getDirectory h) ''analysis_v9'') f w1 =
      (emit (ShowMessage (''Could not open image '' @ path_join (os_sep h) (getDirectory h) f))
         (emit (BioFormatsImporter (path_join (os_sep h) (getDirectory h) f)) w1), Some SystemExit)"
      using a by (simp add: process_image_unopened)
  qed
next
  assume "\<exists>f\<in>set (listdir h (getDirectory h)).
          is_image_name f \<and> image_count h (path_join (os_sep h) (getDirectory h) f) = 0"
  then obtain f where f: "f \<in> set (listdir h (getDirectory h))" "is_image_name f"
    "image_count h (path_join (os_sep h) (getDirectory h) f) = 0" by blast
  from image_loop_unopened[OF f]
  obtain e where "snd (image_loop h (getDirectory h) (path_join (os_sep h) (getDirectory h) ''analysis_v9'')
       (listdir h (getDirectory h)) w) = Some e" by blast
  from main_error[OF this] show "\<exists>e. snd (main h w) = (None, Some e)" by simp
qed

theorem unopened_image_aborts_run_witness:
  "main unreadable_host w0 =
     (\<lparr>events = [BioFormatsImporter ''/data/a.tif'', ShowMessage ''Could not open image /data/a.tif''],
       csv_files = (\<lambda>p. None)\<rparr>, None, Some SystemExit)
   \<and> image_count unreadable_host ''/data/b.nd2'' = 1"
  using unopened_image_aborts_run[of unreadable_host "''/data/''" "''a.tif''" "''/data/analysis_v9''" w0
          "[]" "[''notes.txt'', ''b.nd2'']" w0]
  by (simp add: unreadable_fields demo_names demo_paths emit_def w0_def)

subsection \<open>C10: an image without regions\<close>

text \<open>
  C10, as amended. An image that opens and is classified but has no surviving region
  takes only the steps up to the two image exports: it writes no CSV file (and no
  spreadsheet), so the CSV files of the analysis folder are as they were before, also
  after the whole loop over the images as far as this image's CSV path goes. In the
  aggregation an image name whose CSV file does not exist is passed over with no step and
  no row. So when no CSV file of that name was in the folder before the run, a run that
  completes builds the folder table that the listing without the image gives.
\<close>

theorem no_rois_no_csv:
  "(image_count h (path_join (os_sep h) d f) \<noteq> 0 \<and>
    path_exists h (expanduser h MEMBRANE_MODEL_FILE) \<and>
    surviving_rois h (path_join (os_sep h) d f) = [] \<longrightarrow>
      process_image h d ad f w =
        (emit (SaveImage (ad @ ''/'' @ f @ ''_masks.png''))
           (emit (SaveImage (ad @ ''/'' @ f @ ''.tif''))
              (emit WaitForUserDialog
                 (emit (PixelClassification (expanduser h MEMBRANE_MODEL_FILE) (path_join (os_sep h) d f))
                    (emit (ExistsCheck (expanduser h MEMBRANE_MODEL_FILE))
                       (emit (BioFormatsImporter (path_join (os_sep h) d f)) w))))), None))
   \<and> (surviving_rois h (path_join (os_sep h) d f) = [] \<longrightarrow>
        csv_files (fst (process_image h d ad f w)) = csv_files w \<and>
        csv_files (fst (image_loop h d ad fs w)) (csv_file_of (os_sep h) ad f) =
          csv_files w (csv_file_of (os_sep h) ad f))
   \<and> (is_image_name f \<and> csv_files w (csv_file_of (os_sep h) ad f) = None \<longrightarrow>
        summary_loop h ad (f # rest) w res = summary_loop h ad rest w res)
   \<and> (surviving_rois h (path_join (os_sep h) (getDirectory h) f) = [] \<and>
        csv_files w (csv_file_of (os_sep h) (path_join (os_sep h) (getDirectory h) ''analysis_v9'') f) = None \<and>
        snd (snd (main h w)) = None \<longrightarrow>
        main h w =
          (case summary_loop h (path_join (os_sep h) (getDirectory h) ''analysis_v9'')
                  (removeAll f (listdir h (getDirectory h)))
                  (fst (image_loop h (getDirectory h)
                          (path_join (os_sep h) (getDirectory h) ''analysis_v9'')
                          (listdir h (getDirectory h)) w)) [] of
             (w2, results) \<Rightarrow>
               (emit (ShowMessage ''Finshed processing folder.'') (emit Summarize w2),
                Some results, None)))"
proof (intro conjI impI)
  assume "image_count h (path_join (os_sep h) d f) \<noteq> 0 \<and>
    path_exists h (expanduser h MEMBRANE_MODEL_FILE) \<and>
    surviving_rois h (path_join (os_sep h) d f) = []"
  then show "process_image h d ad f w =
        (emit (SaveImage (ad @ ''/'' @ f @ ''_masks.png''))
           (emit (SaveImage (ad @ ''/'' @ f @ ''.tif''))
              (emit WaitForUserDialog
                 (emit (PixelClassification (expanduser h MEMBRANE_MODEL_FILE) (path_join (os_sep h) d f))
                    (emit (ExistsCheck (expanduser h MEMBRANE_MODEL_FILE))
                       (emit (BioFormatsImporter (path_join (os_sep h) d f)) w))))), None)"
    by (intro process_image_no_rois) simp_all
next
  assume a: "surviving_rois h (path_join (os_sep h) d f) = []"
  then show "csv_files (fst (process_image h d ad f w)) = csv_files w"
    by (rule process_image_csv_no_rois)
  from a show "csv_files (fst (image_loop h d ad fs w)) (csv_file_of (os_sep h) ad f) =
          csv_files w (csv_file_of (os_sep h) ad f)"
    by (rule image_loop_csv_no_rois)
next
  assume "is_image_name f \<and> csv_files w (csv_file_of (os_sep h) ad f) = None"
  then show "summary_loop h ad (f # rest) w res = summary_loop h ad rest w res"
    by (simp add: Let_def)
next
  let ?d = "getDirectory h"
  let ?ad = "path_join (os_sep h) (getDirectory h) ''analysis_v9''"
  let ?w1 = "fst (image_loop h ?d ?ad (listdir h ?d) w)"
  assume a: "surviving_rois h (path_join (os_sep h) ?d f) = [] \<and>
        csv_files w (csv_file_of (os_sep h) ?ad f) = None \<and> snd (snd (main h w)) = None"
  then have c: "snd (image_loop h ?d ?ad (listdir h ?d) w) = None"
    by (simp add: main_result_iff)
  have "csv_files ?w1 (csv_file_of (os_sep h) ?ad f) = None"
    using a image_loop_csv_no_rois[of h ?d f ?ad "listdir h ?d" w] by simp
  from summary_loop_skip[OF this]
  have "summary_loop h ?ad (listdir h ?d) ?w1 [] = summary_loop h ?ad (removeAll f (listdir h ?d)) ?w1 []" .
  then show "main h w =
          (case summary_loop h ?ad (removeAll f (listdir h ?d)) ?w1 [] of
             (w2, results) \<Rightarrow>
               (emit (ShowMessage ''Finshed processing folder.'') (emit Summarize w2),
                Some results, None))"
    unfolding main_completes[OF c] by (simp split: prod.splits)
qed

theorem no_rois_no_csv_witness:
  "csv_files (fst (process_image no_rois_host ''/data/'' ''/data/analysis_v9'' ''a.tif'' w0)) = csv_files w0
   \<and> summary_loop no_rois_host ''/data/analysis_v9'' [''a.tif''] w0 [] = (w0, [])
   \<and> main no_rois_host w0 =
       (case summary_loop no_rois_host ''/data/analysis_v9'' [''notes.txt'', ''b.nd2'']
               (fst (image_loop no_rois_host ''/data/'' ''/data/analysis_v9''
                       [''a.tif'', ''notes.txt'', ''b.nd2''] w0)) [] of
          (w2, results) \<Rightarrow>
            (emit (ShowMessage ''Finshed processing folder.'') (emit Summarize w2), Some results, None))"
proof -
  note t = no_rois_no_csv[where h = no_rois_host and d = "''/data/''" and f = "''a.tif''"
          and ad = "''/data/analysis_v9''" and w = w0 and fs = "[]" and rest = "[]" and res = "[]"]
  have s: "surviving_rois no_rois_host (path_join (os_sep no_rois_host) ''/data/'' ''a.tif'') = []"
    by (rule no_rois_survivors)
  have e: "csv_files w0 (csv_file_of (os_sep no_rois_host) ''/data/analysis_v9'' ''a.tif'') = None"
    by (simp add: w0_def)
  from t s have 1: "csv_files (fst (process_image no_rois_host ''/data/'' ''/data/analysis_v9'' ''a.tif'' w0)) = csv_files w0"
    by blast
  from t e demo_names(1)
  have "summary_loop no_rois_host ''/data/analysis_v9'' (''a.tif'' # []) w0 [] =
        summary_loop no_rois_host ''/data/analysis_v9'' [] w0 []"
    by blast
  then have 2: "summary_loop no_rois_host ''/data/analysis_v9'' [''a.tif''] w0 [] = (w0, [])"
    by (simp only: summary_loop.simps(1))
  have s': "surviving_rois no_rois_host (path_join (os_sep no_rois_host) (getDirectory no_rois_host) ''a.tif'') = []"
    by (rule no_rois_survivors)
  have e': "csv_files w0 (csv_file_of (os_sep no_rois_host)
              (path_join (os_sep no_rois_host) (getDirectory no_rois_host) ''analysis_v9'') ''a.tif'') = None"
    by (simp add: w0_def)
  from t s' e' no_rois_completes[of w0]
  have "main no_rois_host w0 =
       (case summary_loop no_rois_host (path_join (os_sep no_rois_host) (getDirectory no_rois_host) ''analysis_v9'')
               (removeAll ''a.tif'' (listdir no_rois_host (getDirectory no_rois_host)))
               (fst (image_loop no_rois_host (getDirectory no_rois_host)
                       (path_join (os_sep no_rois_host) (getDirectory no_rois_host) ''analysis_v9'')
                       (listdir no_rois_host (getDirectory no_rois_host)) w0)) [] of
          (w2, results) \<Rightarrow>
            (emit (ShowMessage ''Finshed processing folder.'') (emit Summarize w2), Some results, None))"
    by blast
  then have 3: "main no_rois_host w0 =
       (case summary_loop no_rois_host ''/data/analysis_v9'' [''notes.txt'', ''b.nd2'']
               (fst (image_loop no_rois_host ''/data/'' ''/data/analysis_v9''
                       [''a.tif'', ''notes.txt'', ''b.nd2''] w0)) [] of
          (w2, results) \<Rightarrow>
            (emit (ShowMessage ''Finshed processing folder.'') (emit Summarize w2), Some results, None))"
    by (simp add: no_rois_fields demo_paths del: image_loop.simps summary_loop.simps)
  from 1 2 3 show ?thesis by blast
qed

text \<open>
  C10 as stated fails when the analysis folder, which the script reuses, holds a CSV
  file of the image's name from before the run: the image has no surviving region and
  still contributes that file's row to the folder table.
\<close>

theorem stale_csv_counterexample:
  "surviving_rois no_rois_host ''/data/a.tif'' = []
   \<and> snd (snd (main no_rois_host stale_world)) = None
   \<and> fst (snd (main no_rois_host stale_world)) = Some [demo_summary_row]"
  unfolding no_rois_table
  by (simp add: no_rois_survivors no_rois_completes
      stale_world_def demo_copy_rows demo_row_done_def demo_row_def demo_summary_row_def)

end
